theory Spec2Isabelle
  imports Main "HOL-Library.Sublist"
begin

section \<open>Strings and JavaScript truthiness\<close>

text \<open>
  Source strings are modelled as \<open>string\<close>, lists of characters; the code compares
  characters for equality only. A value of TypeScript type
  \<open>string | null | undefined\<close> is a \<open>string option\<close>, with \<open>None\<close> for
  \<open>null\<close> and \<open>undefined\<close>.
\<close>

definition falsy :: "string option \<Rightarrow> bool" where
  \<comment> \<open>\<open>!x\<close> for a string-or-null: null, undefined and the empty string are falsy\<close>
  "falsy x = (case x of None \<Rightarrow> True | Some s \<Rightarrow> s = [])"

definition or_else :: "string option \<Rightarrow> string \<Rightarrow> string" where
  \<comment> \<open>\<open>x || d\<close> for a string-or-undefined \<open>x\<close> and a string \<open>d\<close>\<close>
  "or_else x d = (case x of None \<Rightarrow> d | Some s \<Rightarrow> if s = [] then d else s)"

section \<open>The deterministic pass\<close>

definition encoded_arrow :: string where
  \<comment> \<open>the text matched by the regular expression \<open>/--&gt;/g\<close>\<close>
  "encoded_arrow = ''--&gt;''"

definition raw_arrow :: string where
  "raw_arrow = ''-->''"

text \<open>
  \<open>code.replace(/--&gt;/g, "-->")\<close>: the global replace scans from the left; at a
  position where the pattern matches it emits the replacement and continues behind the
  match, elsewhere it copies one character and moves on by one.
\<close>

function applyDeterministicFixes :: "string \<Rightarrow> string" where
  "applyDeterministicFixes [] = []"
| "applyDeterministicFixes (c # cs) =
     (if prefix encoded_arrow (c # cs)
      then raw_arrow @ applyDeterministicFixes (drop (length encoded_arrow) (c # cs))
      else c # applyDeterministicFixes cs)"
  by pat_completeness auto
termination
  by (relation "measure length") (auto simp: encoded_arrow_def)


text \<open>\<open>Array.prototype.join\<close>: the pieces with the separator between neighbours.\<close>

fun joinWith :: "'a list \<Rightarrow> 'a list list \<Rightarrow> 'a list" where
  "joinWith sep [] = []"
| "joinWith sep [p] = p"
| "joinWith sep (p # q # ps) = p @ sep @ joinWith sep (q # ps)"

section \<open>Results, thrown values and messages\<close>

record MermaidFixResult =
  success :: bool
  fixedCode :: "string option"
  error :: "string option"
  attempts :: "int option"

text \<open>
  The field \<open>error\<close> of \<open>MermaidValidationResult\<close> is named \<open>validationError\<close>
  here, since record fields share one name space.
\<close>

record MermaidValidationResult =
  isValid :: bool
  validationError :: "string option"

datatype thrown =
    ErrorObject string  \<comment> \<open>an \<open>Error\<close> instance, with its \<open>message\<close>\<close>
  | OtherValue          \<comment> \<open>any thrown value that is not an \<open>Error\<close>\<close>

datatype 'a settled = Resolved 'a | Rejected thrown

text \<open>The payload of \<open>vscode.postMessage\<close> and the \<open>data\<close> of an inbound message event.\<close>

record outbound =
  out_type :: string
  out_requestId :: string
  out_text :: string
  out_error :: string
  out_attempt :: int
  out_maxAttempts :: int

record inbound =
  msg_type :: string
  msg_requestId :: string
  msg_success :: bool
  msg_fixedCode :: "string option"
  msg_error :: "string option"

text \<open>
  What the code does not control: the parser of the mermaid library, the random part of
  a request identifier, and the message events that the window dispatches between the
  posting of a request and the deadline of its timeout.
\<close>

record environment =
  parse :: "string \<Rightarrow> thrown option"
    \<comment> \<open>\<open>mermaid.parse\<close>: \<open>None\<close> when it accepts, \<open>Some v\<close> when it throws \<open>v\<close>\<close>
  stamp :: "string \<Rightarrow> string \<Rightarrow> int \<Rightarrow> string"
    \<comment> \<open>\<open>Date.now()\<close> and \<open>Math.random()\<close> as rendered into the request identifier\<close>
  inbox :: "outbound \<Rightarrow> inbound list"

definition MAX_FIX_ATTEMPTS :: int where
  "MAX_FIX_ATTEMPTS = 2"

definition FIX_TIMEOUT :: int where
  "FIX_TIMEOUT = 30000"

section \<open>validateSyntax\<close>

definition validateSyntax :: "environment \<Rightarrow> string \<Rightarrow> MermaidValidationResult" where
  "validateSyntax E code =
     (case parse E code of
        None \<Rightarrow> \<lparr>isValid = True, validationError = None\<rparr>
      | Some (ErrorObject message) \<Rightarrow> \<lparr>isValid = False, validationError = Some message\<rparr>
      | Some OtherValue \<Rightarrow> \<lparr>isValid = False, validationError = Some ''Unknown syntax error''\<rparr>)"

section \<open>requestLLMFix\<close>

text \<open>
  The promise executor registers a timeout and a message listener and posts the request.
  The state below is what the closures of one call act on; \<open>actions\<close> logs the calls
  to the platform and to the promise, in order.
\<close>

datatype action =
    SetTimeout int
  | AddListener
  | PostMessage outbound
  | ClearTimeout
  | RemoveListener
  | Settle "string option settled"

record pending_request =
  listener_on :: bool  \<comment> \<open>\<open>messageListener\<close> is registered on the window\<close>
  timer_on :: bool     \<comment> \<open>the timeout is scheduled and has neither fired nor been cleared\<close>
  promise :: "string option settled option"  \<comment> \<open>\<open>None\<close> while the promise is pending\<close>
  actions :: "action list"

definition settle :: "string option settled \<Rightarrow> pending_request \<Rightarrow> pending_request" where
  \<comment> \<open>\<open>resolve\<close> and \<open>reject\<close>: only the first call settles the promise\<close>
  "settle r c =
     c\<lparr>promise := (case promise c of None \<Rightarrow> Some r | Some r0 \<Rightarrow> Some r0),
       actions := actions c @ [Settle r]\<rparr>"

definition cleanup :: "pending_request \<Rightarrow> pending_request" where
  "cleanup c =
     c\<lparr>timer_on := False, listener_on := False,
       actions := actions c @ [ClearTimeout, RemoveListener]\<rparr>"

definition timeoutCallback :: "pending_request \<Rightarrow> pending_request" where
  "timeoutCallback c = settle (Rejected (ErrorObject ''LLM fix request timed out'')) (cleanup c)"

definition messageListener :: "string \<Rightarrow> inbound \<Rightarrow> pending_request \<Rightarrow> pending_request" where
  "messageListener requestId message c =
     (if msg_type message = ''mermaidFixResponse'' \<and> msg_requestId message = requestId
      then (let c' = cleanup c in
            if msg_success message
            then settle (Resolved (msg_fixedCode message)) c'
            else settle (Rejected (ErrorObject (or_else (msg_error message) ''LLM fix failed''))) c')
      else c)"

definition newRequestId :: "environment \<Rightarrow> string \<Rightarrow> string \<Rightarrow> int \<Rightarrow> string" where
  "newRequestId E code err attempt = ''mermaid-fix-'' @ stamp E code err attempt"

definition fixRequest :: "environment \<Rightarrow> string \<Rightarrow> string \<Rightarrow> int \<Rightarrow> outbound" where
  "fixRequest E code err attempt =
     \<lparr>out_type = ''fixMermaidSyntax'', out_requestId = newRequestId E code err attempt,
      out_text = code, out_error = err, out_attempt = attempt,
      out_maxAttempts = MAX_FIX_ATTEMPTS\<rparr>"

text \<open>
  The executor of the promise. \<open>posted\<close> is what \<open>vscode.postMessage\<close> does:
  \<open>None\<close> when it returns, \<open>Some v\<close> when it throws \<open>v\<close>. A throw leaves the
  executor after the timeout and the listener have been registered, and the promise
  is rejected with the thrown value.
\<close>

definition executor ::
  "thrown option \<Rightarrow> environment \<Rightarrow> string \<Rightarrow> string \<Rightarrow> int \<Rightarrow> pending_request" where
  "executor posted E code err attempt =
     (let c = \<lparr>listener_on = True, timer_on = True, promise = None,
               actions = [SetTimeout FIX_TIMEOUT, AddListener,
                          PostMessage (fixRequest E code err attempt)]\<rparr>
      in case posted of None \<Rightarrow> c | Some v \<Rightarrow> settle (Rejected v) c)"

text \<open>
  The platform: a message event runs the listener while it is registered; at the
  deadline the timer fires, once, unless it was cleared.
\<close>

definition dispatch :: "string \<Rightarrow> pending_request \<Rightarrow> inbound \<Rightarrow> pending_request" where
  "dispatch requestId c message =
     (if listener_on c then messageListener requestId message c else c)"

definition deadline :: "pending_request \<Rightarrow> pending_request" where
  "deadline c = (if timer_on c then timeoutCallback (c\<lparr>timer_on := False\<rparr>) else c)"

definition requestLLMFix_run ::
  "thrown option \<Rightarrow> environment \<Rightarrow> string \<Rightarrow> string \<Rightarrow> int \<Rightarrow> pending_request" where
  "requestLLMFix_run posted E code err attempt =
     deadline (foldl (dispatch (newRequestId E code err attempt))
                     (executor posted E code err attempt)
                     (inbox E (fixRequest E code err attempt)))"

text \<open>
  What awaiting the promise yields, \<open>None\<close> if it were never settled. The fix loop is
  modelled for a request that is posted: \<open>vscode.postMessage\<close> returns.
\<close>

definition requestLLMFix ::
  "environment \<Rightarrow> string \<Rightarrow> string \<Rightarrow> int \<Rightarrow> string option settled option" where
  "requestLLMFix E code err attempt = promise (requestLLMFix_run None E code err attempt)"

section \<open>fixSyntax and autoFixSyntax\<close>

text \<open>The calls a fix sequence makes, in order, as a test spy would record them.\<close>

datatype invocation =
    RequestLLMFix string string int
  | ValidateSyntax string

fun decimal :: "nat \<Rightarrow> string" where
  "decimal n =
     (if n < 10 then [char_of (48 + n)] else decimal (n div 10) @ [char_of (48 + n mod 10)])"

text \<open>
  The \<open>for\<close> loop of \<open>fixSyntax\<close>, from the loop test on, with the loop variables as
  arguments. The test \<open>!fixedCode\<close> is \<open>falsy\<close>; behind it \<open>fixedCode\<close> is a
  non-empty string. The result is \<open>None\<close> if an awaited promise were never settled.
\<close>

function fixSyntax_loop ::
  "environment \<Rightarrow> string \<Rightarrow> string \<Rightarrow> string \<Rightarrow> int
     \<Rightarrow> MermaidFixResult option \<times> invocation list" where
  "fixSyntax_loop E currentCode lastError bestAttempt attempt =
     (if attempt \<le> MAX_FIX_ATTEMPTS then
        (case requestLLMFix E currentCode lastError attempt of
           None \<Rightarrow> (None, [RequestLLMFix currentCode lastError attempt])
         | Some (Rejected requestError) \<Rightarrow>
             (Some \<lparr>success = False, fixedCode = Some bestAttempt,
                    error = Some (case requestError of
                                    ErrorObject message \<Rightarrow> message
                                  | OtherValue \<Rightarrow> ''Fix request failed''),
                    attempts = Some attempt\<rparr>,
              [RequestLLMFix currentCode lastError attempt])
         | Some (Resolved fixed) \<Rightarrow>
             (case (if falsy fixed then None else fixed) of
                None \<Rightarrow>
                  (Some \<lparr>success = False, fixedCode = Some bestAttempt,
                         error = Some ''LLM failed to provide a fix'',
                         attempts = Some attempt\<rparr>,
                   [RequestLLMFix currentCode lastError attempt])
              | Some fixedCode' \<Rightarrow>
                  (let validation = validateSyntax E fixedCode' in
                   if isValid validation then
                     (Some \<lparr>success = True, fixedCode = Some fixedCode', error = None,
                            attempts = Some attempt\<rparr>,
                      [RequestLLMFix currentCode lastError attempt, ValidateSyntax fixedCode'])
                   else
                     (let (r, t) = fixSyntax_loop E fixedCode'
                                     (or_else (validationError validation)
                                              ''Unknown validation error'')
                                     fixedCode' (attempt + 1)
                      in (r, RequestLLMFix currentCode lastError attempt
                               # ValidateSyntax fixedCode' # t)))))
      else
        (Some \<lparr>success = False, fixedCode = Some bestAttempt,
               error = Some (''Failed to fix syntax after '' @ decimal (nat MAX_FIX_ATTEMPTS)
                             @ '' attempts. Last error: '' @ lastError),
               attempts = Some MAX_FIX_ATTEMPTS\<rparr>,
         []))"
  by pat_completeness auto
termination
  by (relation "measure (\<lambda>(E, c, l, b, attempt). nat (MAX_FIX_ATTEMPTS + 1 - attempt))") auto

definition fixSyntax ::
  "environment \<Rightarrow> string \<Rightarrow> string \<Rightarrow> MermaidFixResult option \<times> invocation list" where
  "fixSyntax E originalCode err = fixSyntax_loop E originalCode err originalCode 1"

definition autoFixSyntax ::
  "environment \<Rightarrow> string \<Rightarrow> MermaidFixResult option \<times> invocation list" where
  "autoFixSyntax E code =
     (let deterministicallyFixedCode = applyDeterministicFixes code;
          validation = validateSyntax E deterministicallyFixedCode
      in if isValid validation then
           (Some \<lparr>success = True, fixedCode = Some deterministicallyFixedCode, error = None,
                  attempts = Some 0\<rparr>,
            [ValidateSyntax deterministicallyFixedCode])
         else
           (let (r, t) = fixSyntax E deterministicallyFixedCode
                           (or_else (validationError validation) ''Unknown syntax error'')
            in (r, ValidateSyntax deterministicallyFixedCode # t)))"

section \<open>Summaries used in the statements\<close>

text \<open>
  The test of \<open>messageListener\<close> on an inbound message, the way it settles the promise
  on a message that passes the test, and the result of awaiting a request given the
  messages dispatched before the deadline.
\<close>

definition matches :: "string \<Rightarrow> inbound \<Rightarrow> bool" where
  "matches requestId message \<longleftrightarrow>
     msg_type message = ''mermaidFixResponse'' \<and> msg_requestId message = requestId"

definition answer :: "inbound \<Rightarrow> string option settled" where
  "answer message =
     (if msg_success message then Resolved (msg_fixedCode message)
      else Rejected (ErrorObject (or_else (msg_error message) ''LLM fix failed'')))"

definition outcome_of :: "string \<Rightarrow> inbound list \<Rightarrow> string option settled" where
  "outcome_of rid ms =
     (case find (matches rid) ms of
        None \<Rightarrow> Rejected (ErrorObject ''LLM fix request timed out'')
      | Some m \<Rightarrow> answer m)"

text \<open>The code of the last \<open>validateSyntax\<close> call of a fix sequence, if there is one.\<close>

fun lastValidated :: "invocation list \<Rightarrow> string option" where
  "lastValidated [] = None"
| "lastValidated (ValidateSyntax code # t) =
     (case lastValidated t of None \<Rightarrow> Some code | Some later \<Rightarrow> Some later)"
| "lastValidated (RequestLLMFix code err attempt # t) = lastValidated t"

section \<open>Example environments\<close>

text \<open>
  A parser that accepts only \<open>A --> B\<close>, with an assistant that answers every request
  with the entity-encoded arrow.
\<close>

definition entity_assistant :: environment where
  "entity_assistant =
     \<lparr>parse = (\<lambda>code. if code = ''A --> B'' then None else Some (ErrorObject ''Parse error'')),
      stamp = (\<lambda>code err attempt. ''1700000000000-k3x9q2a1b''),
      inbox = (\<lambda>out. [\<lparr>msg_type = ''mermaidFixResponse'', msg_requestId = out_requestId out,
                         msg_success = True, msg_fixedCode = Some ''A --&gt; B'',
                         msg_error = None\<rparr>])\<rparr>"

text \<open>A parser that rejects every text, with an assistant that never answers.\<close>

definition silent_assistant :: environment where
  "silent_assistant =
     \<lparr>parse = (\<lambda>code. Some (ErrorObject ''No diagram type detected'')),
      stamp = (\<lambda>code err attempt. ''1700000000000-k3x9q2a1b''),
      inbox = (\<lambda>out. [])\<rparr>"

text \<open>A parser that rejects every text, with an assistant that answers with the empty string.\<close>

definition empty_fix_assistant :: environment where
  "empty_fix_assistant =
     \<lparr>parse = (\<lambda>code. Some (ErrorObject ''Parse error'')),
      stamp = (\<lambda>code err attempt. ''1700000000000-k3x9q2a1b''),
      inbox = (\<lambda>out. [\<lparr>msg_type = ''mermaidFixResponse'', msg_requestId = out_requestId out,
                         msg_success = True, msg_fixedCode = Some '''',
                         msg_error = None\<rparr>])\<rparr>"

section \<open>MermaidBlock\<close>

text \<open>
  The state of one mounted \<open>MermaidBlock\<close>: the prop, the state variables, the
  container, and the asynchronous work that is under way.
\<close>

record MermaidBlock =
  props_code :: string          \<comment> \<open>the prop \<open>code\<close>\<close>
  currentCode :: string
  hasAutoFixed :: bool
  isFixing :: bool
  isLoading :: bool
  errorState :: "string option"  \<comment> \<open>the state variable \<open>error\<close>\<close>
  fixAttempts :: int
  container :: string            \<comment> \<open>\<open>containerRef.current.innerHTML\<close>\<close>
  renderScheduled :: bool        \<comment> \<open>the debounced callback is waiting for its delay to pass\<close>
  autoFixing :: "(string \<times> string \<times> MermaidFixResult option) list"
    \<comment> \<open>calls of \<open>renderMermaid\<close> that await \<open>autoFixSyntax\<close>: the \<open>currentCode\<close> and
        \<open>errorMessage\<close> of the closure and what the call will return, if it returns\<close>
  manualFixing :: "MermaidFixResult option list"
    \<comment> \<open>calls of \<open>handleManualFix\<close> that await \<open>autoFixSyntax\<close>\<close>
  autoFixCalls :: nat            \<comment> \<open>calls of \<open>autoFixSyntax\<close> made by \<open>renderMermaid\<close>\<close>
  autoFixRequests :: nat         \<comment> \<open>assistant requests made within those calls\<close>

datatype event =
    CodeChanges string
  | RenderCycle environment "string \<Rightarrow> thrown + string"
  | AutoFixReturns nat
  | ManualFixClicked environment
  | ManualFixReturns nat

text \<open>
  The events of the component. \<open>RenderCycle\<close> is the debounced callback running
  \<open>renderMermaid\<close>, with the parser and assistant of that moment and the outcome of
  \<open>mermaid.render\<close>; \<open>AutoFixReturns i\<close> and \<open>ManualFixReturns i\<close> are the return of
  the \<open>i\<close>-th awaited call of \<open>autoFixSyntax\<close>.
\<close>

definition reschedule :: "string \<Rightarrow> string \<Rightarrow> bool \<Rightarrow> bool" where
  \<comment> \<open>Modelled from the spec: \<open>useDebounceEffect\<close> (\<open>@src/utils/useDebounceEffect\<close>) is not
      among the sources. The render cycle is debounced: it is scheduled when the
      dependency \<open>currentCode\<close> of the effect changes (and at mount), a change within the
      quiet period restarts the timer rather than adding a second cycle, and the cycle
      runs once when the period has passed.\<close>
  "reschedule oldCode newCode scheduled \<longleftrightarrow> scheduled \<or> oldCode \<noteq> newCode"

definition mount :: "string \<Rightarrow> MermaidBlock" where
  "mount c =
     \<lparr>props_code = c, currentCode = c, hasAutoFixed = False, isFixing = False,
      isLoading = True, errorState = None, fixAttempts = 0, container = [],
      renderScheduled = True, autoFixing = [], manualFixing = [],
      autoFixCalls = 0, autoFixRequests = 0\<rparr>"

definition codeEffect :: "string \<Rightarrow> MermaidBlock \<Rightarrow> MermaidBlock" where
  \<comment> \<open>the effect with dependency \<open>[code]\<close>, run when the prop changes\<close>
  "codeEffect c s =
     (if c = props_code s then s
      else s\<lparr>props_code := c, isLoading := True, errorState := None, currentCode := c,
             hasAutoFixed := False, fixAttempts := 0,
             renderScheduled := reschedule (currentCode s) c (renderScheduled s)\<rparr>)"

definition errorMessageOf :: "thrown \<Rightarrow> string" where
  "errorMessageOf err =
     (case err of ErrorObject message \<Rightarrow> message
                | OtherValue \<Rightarrow> ''Failed to render Mermaid diagram'')"

definition parseAndRender ::
  "environment \<Rightarrow> (string \<Rightarrow> thrown + string) \<Rightarrow> string \<Rightarrow> thrown + string" where
  \<comment> \<open>\<open>await mermaid.parse(currentCode)\<close>, then \<open>await mermaid.render(id, currentCode)\<close>\<close>
  "parseAndRender E render c =
     (case parse E c of Some err \<Rightarrow> Inl err | None \<Rightarrow> render c)"

definition requestCount :: "invocation list \<Rightarrow> nat" where
  "requestCount t = length (filter (\<lambda>i. case i of RequestLLMFix c e a \<Rightarrow> True
                                              | ValidateSyntax c \<Rightarrow> False) t)"

definition renderMermaid ::
  "environment \<Rightarrow> (string \<Rightarrow> thrown + string) \<Rightarrow> MermaidBlock \<Rightarrow> MermaidBlock" where
  \<comment> \<open>\<open>renderMermaid\<close> up to its end or to the point where it awaits \<open>autoFixSyntax\<close>;
      the \<open>finally\<close> block reads \<open>isFixing\<close> of the closure. \<open>containerRef.current\<close>
      is set while the error panel is not shown, and only then is the container written\<close>
  "renderMermaid E render s =
     (let s1 = (if errorState s = None then s\<lparr>container := []\<rparr> else s) in
      case parseAndRender E render (currentCode s) of
        Inr svg \<Rightarrow>
          s1\<lparr>container := (if errorState s = None then svg else container s1),
             errorState := None,
             isLoading := (if \<not> isFixing s then False else isLoading s1)\<rparr>
      | Inl err \<Rightarrow>
          (if \<not> hasAutoFixed s \<and> currentCode s = props_code s \<and> \<not> isFixing s then
             (let (r, t) = autoFixSyntax E (currentCode s) in
              s1\<lparr>isFixing := True,
                 autoFixing := autoFixing s1 @ [(currentCode s, errorMessageOf err, r)],
                 autoFixCalls := autoFixCalls s1 + 1,
                 autoFixRequests := autoFixRequests s1 + requestCount t\<rparr>)
           else
             s1\<lparr>errorState := Some (errorMessageOf err),
                isLoading := (if \<not> isFixing s then False else isLoading s1)\<rparr>))"

definition truthy :: "string option \<Rightarrow> bool" where
  "truthy x \<longleftrightarrow> \<not> falsy x"

definition autoFixReturned ::
  "string \<Rightarrow> string \<Rightarrow> MermaidFixResult \<Rightarrow> MermaidBlock \<Rightarrow> MermaidBlock" where
  \<comment> \<open>the rest of \<open>renderMermaid\<close> once \<open>autoFixSyntax\<close> has returned \<open>fixResult\<close>; the
      closure holds \<open>currentCode\<close> and \<open>errorMessage\<close>, and its \<open>isFixing\<close> is false\<close>
  "autoFixReturned closureCode errorMessage fixResult s =
     (if success fixResult \<and> truthy (fixedCode fixResult)
         \<and> fixedCode fixResult \<noteq> Some closureCode
      then s\<lparr>currentCode := or_else (fixedCode fixResult) [],
             hasAutoFixed := True,
             fixAttempts := (case attempts fixResult of None \<Rightarrow> 0 | Some n \<Rightarrow> n),
             renderScheduled :=
               reschedule (currentCode s) (or_else (fixedCode fixResult) []) (renderScheduled s),
             isFixing := False, isLoading := False\<rparr>
      else s\<lparr>errorState := Some errorMessage, isFixing := False, isLoading := False\<rparr>)"

definition handleManualFix :: "environment \<Rightarrow> MermaidBlock \<Rightarrow> MermaidBlock" where
  \<comment> \<open>\<open>handleManualFix\<close> up to the point where it awaits \<open>autoFixSyntax\<close>\<close>
  "handleManualFix E s =
     (if isFixing s then s
      else s\<lparr>isFixing := True, errorState := None,
             manualFixing := manualFixing s @ [fst (autoFixSyntax E (props_code s))]\<rparr>)"

definition manualFixReturned :: "MermaidFixResult \<Rightarrow> MermaidBlock \<Rightarrow> MermaidBlock" where
  "manualFixReturned fixResult s =
     (if success fixResult \<and> truthy (fixedCode fixResult)
      then s\<lparr>currentCode := or_else (fixedCode fixResult) [],
             hasAutoFixed := True,
             fixAttempts := (case attempts fixResult of None \<Rightarrow> 0 | Some n \<Rightarrow> n),
             renderScheduled :=
               reschedule (currentCode s) (or_else (fixedCode fixResult) []) (renderScheduled s),
             isFixing := False\<rparr>
      else s\<lparr>errorState := Some (or_else (error fixResult) ''Failed to fix Mermaid syntax''),
             isFixing := False\<rparr>)"

definition without :: "nat \<Rightarrow> 'a list \<Rightarrow> 'a list" where
  "without i xs = take i xs @ drop (Suc i) xs"

text \<open>
  One event. A render cycle runs only if one is scheduled, and running it uses the
  schedule up; a call that never returns has no return event.
\<close>

fun step :: "MermaidBlock \<Rightarrow> event \<Rightarrow> MermaidBlock" where
  "step s (CodeChanges c) = codeEffect c s"
| "step s (RenderCycle E render) =
     (if renderScheduled s then renderMermaid E render (s\<lparr>renderScheduled := False\<rparr>) else s)"
| "step s (AutoFixReturns i) =
     (if i < length (autoFixing s) then
        (case autoFixing s ! i of
           (closureCode, errorMessage, Some fixResult) \<Rightarrow>
             autoFixReturned closureCode errorMessage fixResult
               (s\<lparr>autoFixing := without i (autoFixing s)\<rparr>)
         | (closureCode, errorMessage, None) \<Rightarrow> s)
      else s)"
| "step s (ManualFixClicked E) = handleManualFix E s"
| "step s (ManualFixReturns i) =
     (if i < length (manualFixing s) then
        (case manualFixing s ! i of
           Some fixResult \<Rightarrow> manualFixReturned fixResult (s\<lparr>manualFixing := without i (manualFixing s)\<rparr>)
         | None \<Rightarrow> s)
      else s)"

definition run :: "MermaidBlock \<Rightarrow> event list \<Rightarrow> MermaidBlock" where
  "run s evs = foldl step s evs"

text \<open>An event that leaves the prop \<open>code\<close> at the value \<open>c\<close>.\<close>

definition sameSource :: "string \<Rightarrow> event \<Rightarrow> bool" where
  "sameSource c ev = (case ev of CodeChanges c' \<Rightarrow> c' = c | _ \<Rightarrow> True)"

section \<open>Properties of the deterministic pass\<close>

lemma joinWith_Cons: "ps \<noteq> [] \<Longrightarrow> joinWith sep (p # ps) = p @ sep @ joinWith sep ps"
  by (cases ps) auto

lemma joinWith_Cons_head: "joinWith sep ((c # p) # ps) = c # joinWith sep (p # ps)"
  by (cases ps) auto

lemma prefix_head_joinWith: "prefix p (joinWith sep (p # ps))"
  by (cases ps) auto

lemma sublist_arrow_Cons:
  "sublist encoded_arrow (c # cs) \<longleftrightarrow> prefix encoded_arrow (c # cs) \<or> sublist encoded_arrow cs"
  by (simp add: sublist_Cons_right encoded_arrow_def)

lemma apply_clean_id: "\<not> sublist encoded_arrow xs \<Longrightarrow> applyDeterministicFixes xs = xs"
proof (induction xs rule: applyDeterministicFixes.induct)
  case 1
  then show ?case by simp
next
  case (2 c cs)
  then show ?case by (simp add: sublist_arrow_Cons)
qed

lemma apply_decomp:
  "\<exists>ps. ps \<noteq> [] \<and> xs = joinWith encoded_arrow ps
      \<and> applyDeterministicFixes xs = joinWith raw_arrow ps
      \<and> (\<forall>p \<in> set ps. \<not> sublist encoded_arrow p)"
proof (induction xs rule: applyDeterministicFixes.induct)
  case 1
  show ?case by (rule exI[of _ "[[]]"]) (simp add: encoded_arrow_def)
next
  case (2 c cs)
  show ?case
  proof (cases "prefix encoded_arrow (c # cs)")
    case True
    from 2(1)[OF True] obtain ps where ps: "ps \<noteq> []"
      "drop (length encoded_arrow) (c # cs) = joinWith encoded_arrow ps"
      "applyDeterministicFixes (drop (length encoded_arrow) (c # cs)) = joinWith raw_arrow ps"
      "\<forall>p \<in> set ps. \<not> sublist encoded_arrow p" by blast
    from True obtain r where r: "c # cs = encoded_arrow @ r" by (auto simp: prefix_def)
    then have dr: "drop (length encoded_arrow) (c # cs) = r" by simp
    have a: "c # cs = joinWith encoded_arrow ([] # ps)"
      using ps(1,2) r dr by (simp add: joinWith_Cons)
    have b: "applyDeterministicFixes (c # cs) = joinWith raw_arrow ([] # ps)"
      using ps(1,3) True by (simp add: joinWith_Cons)
    have c: "\<forall>p \<in> set ([] # ps). \<not> sublist encoded_arrow p"
      using ps(4) by (simp add: encoded_arrow_def)
    from a b c show ?thesis by blast
  next
    case False
    from 2(2)[OF False] obtain ps where ps: "ps \<noteq> []"
      "cs = joinWith encoded_arrow ps"
      "applyDeterministicFixes cs = joinWith raw_arrow ps"
      "\<forall>p \<in> set ps. \<not> sublist encoded_arrow p" by blast
    then obtain p ps' where pp: "ps = p # ps'" by (cases ps) auto
    have a: "c # cs = joinWith encoded_arrow ((c # p) # ps')"
      using ps(2) pp by (simp add: joinWith_Cons_head)
    have b: "applyDeterministicFixes (c # cs) = joinWith raw_arrow ((c # p) # ps')"
      using ps(3) pp False by (simp add: joinWith_Cons_head)
    have "prefix (c # p) (c # cs)"
      using ps(2) pp prefix_head_joinWith[of p encoded_arrow ps'] by simp
    with False have "\<not> prefix encoded_arrow (c # p)"
      using prefix_order.trans by blast
    with ps(4) pp have c: "\<forall>q \<in> set ((c # p) # ps'). \<not> sublist encoded_arrow q"
      by (simp add: sublist_arrow_Cons)
    from a b c show ?thesis by blast
  qed
qed

lemma prefix_apply_dashfree:
  "prefix q (applyDeterministicFixes xs) \<Longrightarrow> CHR ''-'' \<notin> set q \<Longrightarrow> prefix q xs"
proof (induction q arbitrary: xs)
  case Nil
  then show ?case by simp
next
  case (Cons a q)
  show ?case
  proof (cases xs)
    case Nil
    with Cons.prems show ?thesis by simp
  next
    case (Cons c cs)
    show ?thesis
    proof (cases "prefix encoded_arrow (c # cs)")
      case True
      with Cons.prems Cons show ?thesis by (simp add: raw_arrow_def)
    next
      case False
      with Cons.prems Cons Cons.IH[of cs] show ?thesis by simp
    qed
  qed
qed

lemma prefix_arrow_apply:
  assumes "prefix encoded_arrow (c # applyDeterministicFixes cs)"
  shows "prefix encoded_arrow (c # cs)"
proof (cases cs)
  case Nil
  with assms show ?thesis by (simp add: encoded_arrow_def)
next
  case (Cons d ds)
  show ?thesis
  proof (cases "prefix encoded_arrow (d # ds)")
    case True
    then have "applyDeterministicFixes cs =
        raw_arrow @ applyDeterministicFixes (drop (length encoded_arrow) cs)"
      using Cons by simp
    with assms have False by (simp add: encoded_arrow_def raw_arrow_def)
    then show ?thesis ..
  next
    case False
    then have "applyDeterministicFixes cs = d # applyDeterministicFixes ds"
      using Cons by simp
    with assms have cd: "c = CHR ''-''" "d = CHR ''-''" and
      p: "prefix ''&gt;'' (applyDeterministicFixes ds)"
      by (auto simp: encoded_arrow_def)
    from prefix_apply_dashfree[OF p] have "prefix ''&gt;'' ds" by simp
    with cd Cons show ?thesis by (simp add: encoded_arrow_def)
  qed
qed

lemma apply_output_clean: "\<not> sublist encoded_arrow (applyDeterministicFixes xs)"
proof (induction xs rule: applyDeterministicFixes.induct)
  case 1
  show ?case by (simp add: encoded_arrow_def)
next
  case (2 c cs)
  show ?case
  proof (cases "prefix encoded_arrow (c # cs)")
    case True
    with 2(1) have "\<not> sublist encoded_arrow
        (applyDeterministicFixes (drop (length encoded_arrow) (c # cs)))" by simp
    then have "\<not> sublist encoded_arrow
       (raw_arrow @ applyDeterministicFixes (drop (length encoded_arrow) (c # cs)))"
      unfolding raw_arrow_def by (simp add: sublist_arrow_Cons) (simp add: encoded_arrow_def)
    with True show ?thesis by simp
  next
    case False
    with 2(2) have "\<not> sublist encoded_arrow (applyDeterministicFixes cs)" by simp
    moreover from False have "\<not> prefix encoded_arrow (c # applyDeterministicFixes cs)"
      using prefix_arrow_apply by blast
    ultimately show ?thesis using False by (simp add: sublist_arrow_Cons)
  qed
qed

lemma apply_idem: "applyDeterministicFixes (applyDeterministicFixes x) = applyDeterministicFixes x"
  by (rule apply_clean_id) (rule apply_output_clean)

lemma no_match_before_arrow:
  assumes "\<not> sublist encoded_arrow (c # p)"
  shows "\<not> prefix encoded_arrow (c # p @ encoded_arrow @ r)"
proof
  assume pre: "prefix encoded_arrow (c # p @ encoded_arrow @ r)"
  from assms have np: "\<not> prefix encoded_arrow (c # p)"
    by (simp add: sublist_arrow_Cons)
  consider "p = []" | a where "p = [a]" | a b where "p = [a, b]"
    | a b d where "p = [a, b, d]" | a b d e q where "p = a # b # d # e # q"
    by (metis list.exhaust)
  then show False
  proof cases
    case 1 with pre show False by (simp add: encoded_arrow_def)
  next
    case 2 with pre show False by (simp add: encoded_arrow_def)
  next
    case 3 with pre show False by (simp add: encoded_arrow_def)
  next
    case 4 with pre show False by (simp add: encoded_arrow_def)
  next
    case 5 with pre np show False by (cases q) (auto simp: encoded_arrow_def)
  qed
qed

lemma apply_piece_arrow:
  "\<not> sublist encoded_arrow p \<Longrightarrow>
   applyDeterministicFixes (p @ encoded_arrow @ r) = p @ raw_arrow @ applyDeterministicFixes r"
proof (induction p)
  case Nil
  have "prefix encoded_arrow (encoded_arrow @ r)" by simp
  moreover have "encoded_arrow @ r = CHR ''-'' # (''-&gt;'' @ r)" by (simp add: encoded_arrow_def)
  ultimately show ?case by (simp add: encoded_arrow_def)
next
  case (Cons c p)
  then have "\<not> sublist encoded_arrow p" by (simp add: sublist_arrow_Cons)
  with Cons.IH have "applyDeterministicFixes (p @ encoded_arrow @ r) =
     p @ raw_arrow @ applyDeterministicFixes r" by simp
  moreover have "\<not> prefix encoded_arrow (c # p @ encoded_arrow @ r)"
    using no_match_before_arrow[OF Cons.prems] .
  ultimately show ?case by simp
qed

lemma apply_joinWith:
  "ps \<noteq> [] \<Longrightarrow> \<forall>p \<in> set ps. \<not> sublist encoded_arrow p \<Longrightarrow>
   applyDeterministicFixes (joinWith encoded_arrow ps) = joinWith raw_arrow ps"
proof (induction ps)
  case Nil
  then show ?case by simp
next
  case (Cons p ps)
  show ?case
  proof (cases ps)
    case Nil
    with Cons.prems show ?thesis by (simp add: apply_clean_id)
  next
    case (Cons q qs)
    with Cons.prems Cons.IH show ?thesis by (simp add: apply_piece_arrow)
  qed
qed

text \<open>
  C6. For every input, \<open>applyDeterministicFixes\<close> replaces every occurrence of the
  text \<open>--&gt;\<close> by \<open>-->\<close> and leaves every other character as it is: the input
  can be cut at occurrences of \<open>--&gt;\<close> into pieces that contain no occurrence, and
  for every such cut the output is the same pieces, in the same order, joined by
  \<open>-->\<close>. Whitespace, line breaks and other entities such as \<open>&amp;\<close> and
  \<open>&lt;\<close> lie inside the pieces and are returned unchanged.
\<close>

theorem applyDeterministicFixes_replaces_arrows:
  "(\<exists>ps. ps \<noteq> [] \<and> (\<forall>p \<in> set ps. \<not> sublist encoded_arrow p)
         \<and> code = joinWith encoded_arrow ps)
   \<and> (\<forall>ps. ps \<noteq> [] \<and> (\<forall>p \<in> set ps. \<not> sublist encoded_arrow p)
             \<and> code = joinWith encoded_arrow ps
          \<longrightarrow> applyDeterministicFixes code = joinWith raw_arrow ps)"
proof
  from apply_decomp[of code]
  show "\<exists>ps. ps \<noteq> [] \<and> (\<forall>p \<in> set ps. \<not> sublist encoded_arrow p)
          \<and> code = joinWith encoded_arrow ps"
    by blast
next
  show "\<forall>ps. ps \<noteq> [] \<and> (\<forall>p \<in> set ps. \<not> sublist encoded_arrow p)
             \<and> code = joinWith encoded_arrow ps
          \<longrightarrow> applyDeterministicFixes code = joinWith raw_arrow ps"
    using apply_joinWith by blast
qed

theorem applyDeterministicFixes_replaces_arrows_witness:
  "\<not> sublist encoded_arrow ''A ''
   \<and> \<not> sublist encoded_arrow '' B &amp; C &lt; D''
   \<and> ''A --&gt; B &amp; C &lt; D'' = joinWith encoded_arrow [''A '', '' B &amp; C &lt; D'']
   \<and> applyDeterministicFixes ''A --&gt; B &amp; C &lt; D'' = ''A --> B &amp; C &lt; D''"
proof -
  have h: "\<not> sublist encoded_arrow ''A ''"
    "\<not> sublist encoded_arrow '' B &amp; C &lt; D''"
    "''A --&gt; B &amp; C &lt; D'' = joinWith encoded_arrow [''A '', '' B &amp; C &lt; D'']"
    by (simp_all add: encoded_arrow_def sublist_Cons_right)
  from applyDeterministicFixes_replaces_arrows[of "''A --&gt; B &amp; C &lt; D''"]
  have "[''A '', '' B &amp; C &lt; D''] \<noteq> []
      \<and> (\<forall>p \<in> set [''A '', '' B &amp; C &lt; D'']. \<not> sublist encoded_arrow p)
      \<and> ''A --&gt; B &amp; C &lt; D'' = joinWith encoded_arrow [''A '', '' B &amp; C &lt; D'']
    \<longrightarrow> applyDeterministicFixes ''A --&gt; B &amp; C &lt; D''
          = joinWith raw_arrow [''A '', '' B &amp; C &lt; D'']"
    by blast
  with h have "applyDeterministicFixes ''A --&gt; B &amp; C &lt; D''
          = joinWith raw_arrow [''A '', '' B &amp; C &lt; D'']"
    by simp
  with h show ?thesis by (simp add: raw_arrow_def)
qed

text \<open>
  C7. \<open>applyDeterministicFixes\<close> is a total function of its argument alone; applying
  it twice gives the same as applying it once, and it returns an input that contains no
  occurrence of \<open>--&gt;\<close> unchanged.
\<close>

theorem applyDeterministicFixes_idempotent_noop:
  "applyDeterministicFixes (applyDeterministicFixes x) = applyDeterministicFixes x
   \<and> (\<not> sublist encoded_arrow x \<longrightarrow> applyDeterministicFixes x = x)"
  using apply_idem apply_clean_id by blast

theorem applyDeterministicFixes_idempotent_noop_witness:
  "\<not> sublist encoded_arrow ''A --> B''
   \<and> applyDeterministicFixes ''A --> B'' = ''A --> B''
   \<and> applyDeterministicFixes (applyDeterministicFixes ''A --&gt; B'')
       = applyDeterministicFixes ''A --&gt; B''"
proof -
  have h: "\<not> sublist encoded_arrow ''A --> B''"
    by (simp add: encoded_arrow_def sublist_Cons_right)
  from applyDeterministicFixes_idempotent_noop[of "''A --> B''"] h
  have "applyDeterministicFixes ''A --> B'' = ''A --> B''" by blast
  moreover from applyDeterministicFixes_idempotent_noop[of "''A --&gt; B''"]
  have "applyDeterministicFixes (applyDeterministicFixes ''A --&gt; B'')
       = applyDeterministicFixes ''A --&gt; B''" by blast
  ultimately show ?thesis using h by blast
qed

section \<open>Properties of requestLLMFix\<close>

lemma dispatch_off: "\<not> listener_on c \<Longrightarrow> foldl (dispatch rid) c ms = c"
  by (induction ms) (simp_all add: dispatch_def)

lemma dispatch_pending_nomatch:
  "listener_on c \<Longrightarrow> \<not> matches rid m \<Longrightarrow> dispatch rid c m = c"
  by (auto simp: dispatch_def messageListener_def matches_def)

lemma dispatch_match:
  "listener_on c \<Longrightarrow> matches rid m \<Longrightarrow> dispatch rid c m = settle (answer m) (cleanup c)"
  by (simp add: dispatch_def messageListener_def matches_def answer_def Let_def)

lemma cleanup_off: "\<not> listener_on (settle r (cleanup c))" "\<not> timer_on (settle r (cleanup c))"
  by (simp_all add: settle_def cleanup_def)

lemma foldl_dispatch_on:
  assumes "listener_on c"
  shows "foldl (dispatch rid) c ms =
     (case find (matches rid) ms of None \<Rightarrow> c | Some m \<Rightarrow> settle (answer m) (cleanup c))"
  using assms
proof (induction ms)
  case Nil
  then show ?case by simp
next
  case (Cons m ms)
  show ?case
  proof (cases "matches rid m")
    case True
    with Cons.prems show ?thesis
      by (simp add: dispatch_match dispatch_off cleanup_off)
  next
    case False
    with Cons show ?thesis by (simp add: dispatch_pending_nomatch)
  qed
qed

lemma executor_posted:
  "executor None E code err attempt =
     \<lparr>listener_on = True, timer_on = True, promise = None,
      actions = [SetTimeout FIX_TIMEOUT, AddListener,
                 PostMessage (fixRequest E code err attempt)]\<rparr>"
  by (simp add: executor_def)

lemma executor_thrown:
  "executor (Some v) E code err attempt =
     \<lparr>listener_on = True, timer_on = True, promise = Some (Rejected v),
      actions = [SetTimeout FIX_TIMEOUT, AddListener,
                 PostMessage (fixRequest E code err attempt), Settle (Rejected v)]\<rparr>"
  by (simp add: executor_def settle_def)

lemma executor_on:
  "listener_on (executor posted E code err attempt)"
  "timer_on (executor posted E code err attempt)"
  by (cases posted; simp add: executor_posted executor_thrown)+

lemma settled_by_message:
  "settle r (cleanup (executor None E code err attempt)) =
     \<lparr>listener_on = False, timer_on = False, promise = Some r,
      actions = [SetTimeout FIX_TIMEOUT, AddListener,
                 PostMessage (fixRequest E code err attempt),
                 ClearTimeout, RemoveListener, Settle r]\<rparr>"
  by (simp add: executor_posted settle_def cleanup_def)

lemma settled_by_timeout:
  "deadline (executor None E code err attempt) =
     \<lparr>listener_on = False, timer_on = False,
      promise = Some (Rejected (ErrorObject ''LLM fix request timed out'')),
      actions = [SetTimeout FIX_TIMEOUT, AddListener,
                 PostMessage (fixRequest E code err attempt),
                 ClearTimeout, RemoveListener,
                 Settle (Rejected (ErrorObject ''LLM fix request timed out''))]\<rparr>"
  by (simp add: executor_posted deadline_def timeoutCallback_def settle_def cleanup_def)

lemma deadline_off: "\<not> timer_on c \<Longrightarrow> deadline c = c"
  by (simp add: deadline_def)

lemma requestLLMFix_run_eq:
  "requestLLMFix_run None E code err attempt =
     \<lparr>listener_on = False, timer_on = False,
      promise = Some (outcome_of (newRequestId E code err attempt)
                        (inbox E (fixRequest E code err attempt))),
      actions = [SetTimeout FIX_TIMEOUT, AddListener, PostMessage (fixRequest E code err attempt),
                 ClearTimeout, RemoveListener,
                 Settle (outcome_of (newRequestId E code err attempt)
                          (inbox E (fixRequest E code err attempt)))]\<rparr>"
proof (cases "find (matches (newRequestId E code err attempt))
                 (inbox E (fixRequest E code err attempt))")
  case None
  then show ?thesis
    by (simp add: requestLLMFix_run_def foldl_dispatch_on[OF executor_on(1)] outcome_of_def
        settled_by_timeout)
next
  case (Some m)
  then show ?thesis
    by (simp add: requestLLMFix_run_def foldl_dispatch_on[OF executor_on(1)] outcome_of_def
        settled_by_message deadline_off)
qed

lemma requestLLMFix_eq:
  "requestLLMFix E code err attempt =
     Some (outcome_of (newRequestId E code err attempt) (inbox E (fixRequest E code err attempt)))"
  by (simp add: requestLLMFix_def requestLLMFix_run_eq)

lemma requestLLMFix_run_released:
  "\<not> listener_on (requestLLMFix_run posted E code err attempt)
   \<and> \<not> timer_on (requestLLMFix_run posted E code err attempt)
   \<and> promise (requestLLMFix_run posted E code err attempt) \<noteq> None
   \<and> count_list (actions (requestLLMFix_run posted E code err attempt))
        (SetTimeout FIX_TIMEOUT) = 1
   \<and> count_list (actions (requestLLMFix_run posted E code err attempt)) AddListener = 1
   \<and> count_list (actions (requestLLMFix_run posted E code err attempt)) ClearTimeout = 1
   \<and> count_list (actions (requestLLMFix_run posted E code err attempt)) RemoveListener = 1"
proof (cases "find (matches (newRequestId E code err attempt))
                 (inbox E (fixRequest E code err attempt))")
  case None
  then have run: "requestLLMFix_run posted E code err attempt
      = deadline (executor posted E code err attempt)"
    by (simp add: requestLLMFix_run_def foldl_dispatch_on[OF executor_on(1)])
  show ?thesis
    unfolding run
    by (cases posted)
       (simp_all add: executor_posted executor_thrown deadline_def timeoutCallback_def
          settle_def cleanup_def)
next
  case (Some m)
  then have run: "requestLLMFix_run posted E code err attempt
      = settle (answer m) (cleanup (executor posted E code err attempt))"
    by (simp add: requestLLMFix_run_def foldl_dispatch_on[OF executor_on(1)]
          deadline_off cleanup_off)
  show ?thesis
    unfolding run
    by (cases posted)
       (simp_all add: executor_posted executor_thrown settle_def cleanup_def)
qed

text \<open>
  C9. Every call of \<open>requestLLMFix\<close>, whether or not \<open>vscode.postMessage\<close> returns,
  sets one timeout and adds one message listener, and when the call is over the timeout
  has been cleared and the listener removed, each once, and the promise is settled.
  For a request that is posted, the three ways of settling are:
  without a matching response the call stays pending, with listener and timer in place,
  until the timeout clears the timer, removes the listener and then rejects the promise
  with \<open>LLM fix request timed out\<close>; the first matching response clears the timer,
  removes the listener and then resolves the promise with its \<open>fixedCode\<close> if it reports
  success, and rejects it with its error text (or \<open>LLM fix failed\<close>) if it reports
  failure. In each case the log of the call is the three registrations followed by
  \<open>clearTimeout\<close>, \<open>removeEventListener\<close> and the settling, and later messages and a
  later deadline change nothing.
\<close>

theorem requestLLMFix_releases_listener_and_timer:
  "(\<forall>posted.
      \<not> listener_on (requestLLMFix_run posted E code err attempt)
      \<and> \<not> timer_on (requestLLMFix_run posted E code err attempt)
      \<and> promise (requestLLMFix_run posted E code err attempt) \<noteq> None
      \<and> count_list (actions (requestLLMFix_run posted E code err attempt))
           (SetTimeout FIX_TIMEOUT) = 1
      \<and> count_list (actions (requestLLMFix_run posted E code err attempt)) AddListener = 1
      \<and> count_list (actions (requestLLMFix_run posted E code err attempt)) ClearTimeout = 1
      \<and> count_list (actions (requestLLMFix_run posted E code err attempt)) RemoveListener = 1)
   \<and> executor None E code err attempt =
        \<lparr>listener_on = True, timer_on = True, promise = None,
         actions = [SetTimeout FIX_TIMEOUT, AddListener,
                    PostMessage (fixRequest E code err attempt)]\<rparr>
   \<and> (\<forall>ms. find (matches (newRequestId E code err attempt)) ms = None \<longrightarrow>
          foldl (dispatch (newRequestId E code err attempt))
            (executor None E code err attempt) ms = executor None E code err attempt
          \<and> deadline (foldl (dispatch (newRequestId E code err attempt))
                (executor None E code err attempt) ms) =
              \<lparr>listener_on = False, timer_on = False,
               promise = Some (Rejected (ErrorObject ''LLM fix request timed out'')),
               actions = [SetTimeout FIX_TIMEOUT, AddListener,
                          PostMessage (fixRequest E code err attempt),
                          ClearTimeout, RemoveListener,
                          Settle (Rejected (ErrorObject ''LLM fix request timed out''))]\<rparr>)
   \<and> (\<forall>ms m. find (matches (newRequestId E code err attempt)) ms = Some m \<and> msg_success m \<longrightarrow>
          foldl (dispatch (newRequestId E code err attempt))
            (executor None E code err attempt) ms =
              \<lparr>listener_on = False, timer_on = False,
               promise = Some (Resolved (msg_fixedCode m)),
               actions = [SetTimeout FIX_TIMEOUT, AddListener,
                          PostMessage (fixRequest E code err attempt),
                          ClearTimeout, RemoveListener,
                          Settle (Resolved (msg_fixedCode m))]\<rparr>)
   \<and> (\<forall>ms m. find (matches (newRequestId E code err attempt)) ms = Some m \<and> \<not> msg_success m \<longrightarrow>
          foldl (dispatch (newRequestId E code err attempt))
            (executor None E code err attempt) ms =
              \<lparr>listener_on = False, timer_on = False,
               promise = Some (Rejected (ErrorObject (or_else (msg_error m) ''LLM fix failed''))),
               actions = [SetTimeout FIX_TIMEOUT, AddListener,
                          PostMessage (fixRequest E code err attempt),
                          ClearTimeout, RemoveListener,
                          Settle (Rejected (ErrorObject
                                    (or_else (msg_error m) ''LLM fix failed'')))]\<rparr>)
   \<and> (\<forall>ms. (let c = foldl (dispatch (newRequestId E code err attempt))
                      (executor None E code err attempt) ms
           in (promise c = None \<and> listener_on c \<and> timer_on c
               \<and> actions c = [SetTimeout FIX_TIMEOUT, AddListener,
                               PostMessage (fixRequest E code err attempt)])
            \<or> (\<exists>r. promise c = Some r \<and> \<not> listener_on c \<and> \<not> timer_on c
                  \<and> actions c = [SetTimeout FIX_TIMEOUT, AddListener,
                                  PostMessage (fixRequest E code err attempt),
                                  ClearTimeout, RemoveListener, Settle r])))
   \<and> (\<exists>r. requestLLMFix_run None E code err attempt =
          \<lparr>listener_on = False, timer_on = False, promise = Some r,
           actions = [SetTimeout FIX_TIMEOUT, AddListener,
                      PostMessage (fixRequest E code err attempt),
                      ClearTimeout, RemoveListener, Settle r]\<rparr>)
   \<and> (\<forall>posted later. deadline (foldl (dispatch (newRequestId E code err attempt))
                     (requestLLMFix_run posted E code err attempt) later)
          = requestLLMFix_run posted E code err attempt)"
proof (intro conjI allI impI)
  fix posted
  show "\<not> listener_on (requestLLMFix_run posted E code err attempt)"
    "\<not> timer_on (requestLLMFix_run posted E code err attempt)"
    "promise (requestLLMFix_run posted E code err attempt) \<noteq> None"
    "count_list (actions (requestLLMFix_run posted E code err attempt))
           (SetTimeout FIX_TIMEOUT) = 1"
    "count_list (actions (requestLLMFix_run posted E code err attempt)) AddListener = 1"
    "count_list (actions (requestLLMFix_run posted E code err attempt)) ClearTimeout = 1"
    "count_list (actions (requestLLMFix_run posted E code err attempt)) RemoveListener = 1"
    using requestLLMFix_run_released[of posted E code err attempt] by blast+
next
  show "executor None E code err attempt =
        \<lparr>listener_on = True, timer_on = True, promise = None,
         actions = [SetTimeout FIX_TIMEOUT, AddListener,
                    PostMessage (fixRequest E code err attempt)]\<rparr>"
    by (rule executor_posted)
next
  fix ms
  assume "find (matches (newRequestId E code err attempt)) ms = None"
  then have a: "foldl (dispatch (newRequestId E code err attempt))
            (executor None E code err attempt) ms = executor None E code err attempt"
    by (simp add: foldl_dispatch_on[OF executor_on(1)])
  then show "foldl (dispatch (newRequestId E code err attempt))
            (executor None E code err attempt) ms = executor None E code err attempt" .
  from a show "deadline (foldl (dispatch (newRequestId E code err attempt))
                (executor None E code err attempt) ms) =
              \<lparr>listener_on = False, timer_on = False,
               promise = Some (Rejected (ErrorObject ''LLM fix request timed out'')),
               actions = [SetTimeout FIX_TIMEOUT, AddListener,
                          PostMessage (fixRequest E code err attempt),
                          ClearTimeout, RemoveListener,
                          Settle (Rejected (ErrorObject ''LLM fix request timed out''))]\<rparr>"
    by (simp add: settled_by_timeout)
next
  fix ms m
  assume "find (matches (newRequestId E code err attempt)) ms = Some m \<and> msg_success m"
  then show "foldl (dispatch (newRequestId E code err attempt))
            (executor None E code err attempt) ms =
              \<lparr>listener_on = False, timer_on = False,
               promise = Some (Resolved (msg_fixedCode m)),
               actions = [SetTimeout FIX_TIMEOUT, AddListener,
                          PostMessage (fixRequest E code err attempt),
                          ClearTimeout, RemoveListener,
                          Settle (Resolved (msg_fixedCode m))]\<rparr>"
    by (simp add: foldl_dispatch_on[OF executor_on(1)] settled_by_message answer_def)
next
  fix ms m
  assume "find (matches (newRequestId E code err attempt)) ms = Some m \<and> \<not> msg_success m"
  then show "foldl (dispatch (newRequestId E code err attempt))
            (executor None E code err attempt) ms =
              \<lparr>listener_on = False, timer_on = False,
               promise = Some (Rejected (ErrorObject (or_else (msg_error m) ''LLM fix failed''))),
               actions = [SetTimeout FIX_TIMEOUT, AddListener,
                          PostMessage (fixRequest E code err attempt),
                          ClearTimeout, RemoveListener,
                          Settle (Rejected (ErrorObject
                                    (or_else (msg_error m) ''LLM fix failed'')))]\<rparr>"
    by (simp add: foldl_dispatch_on[OF executor_on(1)] settled_by_message answer_def)
next
  fix ms
  show "let c = foldl (dispatch (newRequestId E code err attempt))
                  (executor None E code err attempt) ms
        in (promise c = None \<and> listener_on c \<and> timer_on c
               \<and> actions c = [SetTimeout FIX_TIMEOUT, AddListener,
                               PostMessage (fixRequest E code err attempt)])
            \<or> (\<exists>r. promise c = Some r \<and> \<not> listener_on c \<and> \<not> timer_on c
                  \<and> actions c = [SetTimeout FIX_TIMEOUT, AddListener,
                                  PostMessage (fixRequest E code err attempt),
                                  ClearTimeout, RemoveListener, Settle r])"
    unfolding Let_def foldl_dispatch_on[OF executor_on(1)]
    by (cases "find (matches (newRequestId E code err attempt)) ms")
       (simp_all add: executor_posted settled_by_message[unfolded executor_posted])
next
  show "\<exists>r. requestLLMFix_run None E code err attempt =
          \<lparr>listener_on = False, timer_on = False, promise = Some r,
           actions = [SetTimeout FIX_TIMEOUT, AddListener,
                      PostMessage (fixRequest E code err attempt),
                      ClearTimeout, RemoveListener, Settle r]\<rparr>"
    using requestLLMFix_run_eq by blast
next
  fix posted later
  from requestLLMFix_run_released[of posted E code err attempt]
  show "deadline (foldl (dispatch (newRequestId E code err attempt))
                     (requestLLMFix_run posted E code err attempt) later)
          = requestLLMFix_run posted E code err attempt"
    by (simp add: dispatch_off deadline_off)
qed

theorem requestLLMFix_releases_listener_and_timer_witness:
  "find (matches (newRequestId silent_assistant ''graph'' ''Parse error'' 1)) [\<lparr>msg_type = ''theme'', msg_requestId = '''', msg_success = True,
        msg_fixedCode = None, msg_error = None\<rparr>] = None
   \<and> deadline (foldl (dispatch (newRequestId silent_assistant ''graph'' ''Parse error'' 1)) (executor None silent_assistant ''graph'' ''Parse error'' 1) [\<lparr>msg_type = ''theme'', msg_requestId = '''', msg_success = True,
        msg_fixedCode = None, msg_error = None\<rparr>]) =
      \<lparr>listener_on = False, timer_on = False, promise = Some (Rejected (ErrorObject ''LLM fix request timed out'')),
        actions = [SetTimeout FIX_TIMEOUT, AddListener,
                 PostMessage (fixRequest silent_assistant ''graph'' ''Parse error'' 1),
                 ClearTimeout, RemoveListener, Settle (Rejected (ErrorObject ''LLM fix request timed out''))]\<rparr>
   \<and> find (matches (newRequestId silent_assistant ''graph'' ''Parse error'' 1)) [\<lparr>msg_type = ''theme'', msg_requestId = '''', msg_success = True,
        msg_fixedCode = None, msg_error = None\<rparr>, \<lparr>msg_type = ''mermaidFixResponse'',
        msg_requestId = ''mermaid-fix-1700000000000-k3x9q2a1b'', msg_success = True,
        msg_fixedCode = Some ''graph TD'', msg_error = None\<rparr>] = Some (\<lparr>msg_type = ''mermaidFixResponse'',
        msg_requestId = ''mermaid-fix-1700000000000-k3x9q2a1b'', msg_success = True,
        msg_fixedCode = Some ''graph TD'', msg_error = None\<rparr>)
   \<and> msg_success (\<lparr>msg_type = ''mermaidFixResponse'',
        msg_requestId = ''mermaid-fix-1700000000000-k3x9q2a1b'', msg_success = True,
        msg_fixedCode = Some ''graph TD'', msg_error = None\<rparr>)
   \<and> foldl (dispatch (newRequestId silent_assistant ''graph'' ''Parse error'' 1)) (executor None silent_assistant ''graph'' ''Parse error'' 1) [\<lparr>msg_type = ''theme'', msg_requestId = '''', msg_success = True,
        msg_fixedCode = None, msg_error = None\<rparr>, \<lparr>msg_type = ''mermaidFixResponse'',
        msg_requestId = ''mermaid-fix-1700000000000-k3x9q2a1b'', msg_success = True,
        msg_fixedCode = Some ''graph TD'', msg_error = None\<rparr>] =
      \<lparr>listener_on = False, timer_on = False, promise = Some (Resolved (Some ''graph TD'')),
        actions = [SetTimeout FIX_TIMEOUT, AddListener,
                 PostMessage (fixRequest silent_assistant ''graph'' ''Parse error'' 1),
                 ClearTimeout, RemoveListener, Settle (Resolved (Some ''graph TD''))]\<rparr>
   \<and> find (matches (newRequestId silent_assistant ''graph'' ''Parse error'' 1)) [\<lparr>msg_type = ''mermaidFixResponse'',
        msg_requestId = ''mermaid-fix-1700000000000-k3x9q2a1b'', msg_success = False,
        msg_fixedCode = None, msg_error = None\<rparr>, \<lparr>msg_type = ''mermaidFixResponse'',
        msg_requestId = ''mermaid-fix-1700000000000-k3x9q2a1b'', msg_success = True,
        msg_fixedCode = Some ''graph TD'', msg_error = None\<rparr>] = Some (\<lparr>msg_type = ''mermaidFixResponse'',
        msg_requestId = ''mermaid-fix-1700000000000-k3x9q2a1b'', msg_success = False,
        msg_fixedCode = None, msg_error = None\<rparr>)
   \<and> \<not> msg_success (\<lparr>msg_type = ''mermaidFixResponse'',
        msg_requestId = ''mermaid-fix-1700000000000-k3x9q2a1b'', msg_success = False,
        msg_fixedCode = None, msg_error = None\<rparr>)
   \<and> foldl (dispatch (newRequestId silent_assistant ''graph'' ''Parse error'' 1)) (executor None silent_assistant ''graph'' ''Parse error'' 1) [\<lparr>msg_type = ''mermaidFixResponse'',
        msg_requestId = ''mermaid-fix-1700000000000-k3x9q2a1b'', msg_success = False,
        msg_fixedCode = None, msg_error = None\<rparr>, \<lparr>msg_type = ''mermaidFixResponse'',
        msg_requestId = ''mermaid-fix-1700000000000-k3x9q2a1b'', msg_success = True,
        msg_fixedCode = Some ''graph TD'', msg_error = None\<rparr>] =
      \<lparr>listener_on = False, timer_on = False, promise = Some (Rejected (ErrorObject ''LLM fix failed'')),
        actions = [SetTimeout FIX_TIMEOUT, AddListener,
                 PostMessage (fixRequest silent_assistant ''graph'' ''Parse error'' 1),
                 ClearTimeout, RemoveListener, Settle (Rejected (ErrorObject ''LLM fix failed''))]\<rparr>"
proof -
  note T = requestLLMFix_releases_listener_and_timer
    [of silent_assistant "''graph''" "''Parse error''" 1]
  have a: "find (matches (newRequestId silent_assistant ''graph'' ''Parse error'' 1)) [\<lparr>msg_type = ''theme'', msg_requestId = '''', msg_success = True,
        msg_fixedCode = None, msg_error = None\<rparr>] = None"
    by (simp add: matches_def)
  have b: "find (matches (newRequestId silent_assistant ''graph'' ''Parse error'' 1)) [\<lparr>msg_type = ''theme'', msg_requestId = '''', msg_success = True,
        msg_fixedCode = None, msg_error = None\<rparr>, \<lparr>msg_type = ''mermaidFixResponse'',
        msg_requestId = ''mermaid-fix-1700000000000-k3x9q2a1b'', msg_success = True,
        msg_fixedCode = Some ''graph TD'', msg_error = None\<rparr>] = Some (\<lparr>msg_type = ''mermaidFixResponse'',
        msg_requestId = ''mermaid-fix-1700000000000-k3x9q2a1b'', msg_success = True,
        msg_fixedCode = Some ''graph TD'', msg_error = None\<rparr>)"
    "msg_success (\<lparr>msg_type = ''mermaidFixResponse'',
        msg_requestId = ''mermaid-fix-1700000000000-k3x9q2a1b'', msg_success = True,
        msg_fixedCode = Some ''graph TD'', msg_error = None\<rparr>)"
    by (simp_all add: matches_def newRequestId_def silent_assistant_def)
  have c: "find (matches (newRequestId silent_assistant ''graph'' ''Parse error'' 1)) [\<lparr>msg_type = ''mermaidFixResponse'',
        msg_requestId = ''mermaid-fix-1700000000000-k3x9q2a1b'', msg_success = False,
        msg_fixedCode = None, msg_error = None\<rparr>, \<lparr>msg_type = ''mermaidFixResponse'',
        msg_requestId = ''mermaid-fix-1700000000000-k3x9q2a1b'', msg_success = True,
        msg_fixedCode = Some ''graph TD'', msg_error = None\<rparr>] = Some (\<lparr>msg_type = ''mermaidFixResponse'',
        msg_requestId = ''mermaid-fix-1700000000000-k3x9q2a1b'', msg_success = False,
        msg_fixedCode = None, msg_error = None\<rparr>)"
    "\<not> msg_success (\<lparr>msg_type = ''mermaidFixResponse'',
        msg_requestId = ''mermaid-fix-1700000000000-k3x9q2a1b'', msg_success = False,
        msg_fixedCode = None, msg_error = None\<rparr>)"
    by (simp_all add: matches_def newRequestId_def silent_assistant_def)
  from T[THEN conjunct2, THEN conjunct2, THEN conjunct1, rule_format, OF a, THEN conjunct2]
  have a': "deadline (foldl (dispatch (newRequestId silent_assistant ''graph'' ''Parse error'' 1)) (executor None silent_assistant ''graph'' ''Parse error'' 1) [\<lparr>msg_type = ''theme'', msg_requestId = '''', msg_success = True,
        msg_fixedCode = None, msg_error = None\<rparr>]) =
      \<lparr>listener_on = False, timer_on = False, promise = Some (Rejected (ErrorObject ''LLM fix request timed out'')),
        actions = [SetTimeout FIX_TIMEOUT, AddListener,
                 PostMessage (fixRequest silent_assistant ''graph'' ''Parse error'' 1),
                 ClearTimeout, RemoveListener, Settle (Rejected (ErrorObject ''LLM fix request timed out''))]\<rparr>"
    .
  from T[THEN conjunct2, THEN conjunct2, THEN conjunct2, THEN conjunct1, rule_format,
      OF conjI[OF b]]
  have b': "foldl (dispatch (newRequestId silent_assistant ''graph'' ''Parse error'' 1)) (executor None silent_assistant ''graph'' ''Parse error'' 1) [\<lparr>msg_type = ''theme'', msg_requestId = '''', msg_success = True,
        msg_fixedCode = None, msg_error = None\<rparr>, \<lparr>msg_type = ''mermaidFixResponse'',
        msg_requestId = ''mermaid-fix-1700000000000-k3x9q2a1b'', msg_success = True,
        msg_fixedCode = Some ''graph TD'', msg_error = None\<rparr>] =
      \<lparr>listener_on = False, timer_on = False, promise = Some (Resolved (Some ''graph TD'')),
        actions = [SetTimeout FIX_TIMEOUT, AddListener,
                 PostMessage (fixRequest silent_assistant ''graph'' ''Parse error'' 1),
                 ClearTimeout, RemoveListener, Settle (Resolved (Some ''graph TD''))]\<rparr>"
    by simp
  from T[THEN conjunct2, THEN conjunct2, THEN conjunct2, THEN conjunct2, THEN conjunct1,
      rule_format, OF conjI[OF c]]
  have c': "foldl (dispatch (newRequestId silent_assistant ''graph'' ''Parse error'' 1)) (executor None silent_assistant ''graph'' ''Parse error'' 1) [\<lparr>msg_type = ''mermaidFixResponse'',
        msg_requestId = ''mermaid-fix-1700000000000-k3x9q2a1b'', msg_success = False,
        msg_fixedCode = None, msg_error = None\<rparr>, \<lparr>msg_type = ''mermaidFixResponse'',
        msg_requestId = ''mermaid-fix-1700000000000-k3x9q2a1b'', msg_success = True,
        msg_fixedCode = Some ''graph TD'', msg_error = None\<rparr>] =
      \<lparr>listener_on = False, timer_on = False, promise = Some (Rejected (ErrorObject ''LLM fix failed'')),
        actions = [SetTimeout FIX_TIMEOUT, AddListener,
                 PostMessage (fixRequest silent_assistant ''graph'' ''Parse error'' 1),
                 ClearTimeout, RemoveListener, Settle (Rejected (ErrorObject ''LLM fix failed''))]\<rparr>"
    by (simp add: or_else_def)
  from a a' b b' c c' show ?thesis by (intro conjI)
qed

section \<open>Properties of the fix loop\<close>

declare fixSyntax_loop.simps [simp del]

lemma loop_exhausted:
  "\<not> attempt \<le> MAX_FIX_ATTEMPTS \<Longrightarrow>
   fixSyntax_loop E cur le best attempt =
     (Some \<lparr>success = False, fixedCode = Some best,
            error = Some (''Failed to fix syntax after '' @ decimal (nat MAX_FIX_ATTEMPTS)
                          @ '' attempts. Last error: '' @ le),
            attempts = Some MAX_FIX_ATTEMPTS\<rparr>, [])"
  by (subst fixSyntax_loop.simps) simp

lemma loop_rejected:
  "attempt \<le> MAX_FIX_ATTEMPTS \<Longrightarrow> requestLLMFix E cur le attempt = Some (Rejected e) \<Longrightarrow>
   fixSyntax_loop E cur le best attempt =
     (Some \<lparr>success = False, fixedCode = Some best,
            error = Some (case e of ErrorObject message \<Rightarrow> message
                                  | OtherValue \<Rightarrow> ''Fix request failed''),
            attempts = Some attempt\<rparr>,
      [RequestLLMFix cur le attempt])"
  by (subst fixSyntax_loop.simps) simp

lemma loop_no_fix:
  "attempt \<le> MAX_FIX_ATTEMPTS \<Longrightarrow> requestLLMFix E cur le attempt = Some (Resolved fixed) \<Longrightarrow>
   falsy fixed \<Longrightarrow>
   fixSyntax_loop E cur le best attempt =
     (Some \<lparr>success = False, fixedCode = Some best,
            error = Some ''LLM failed to provide a fix'',
            attempts = Some attempt\<rparr>,
      [RequestLLMFix cur le attempt])"
  by (subst fixSyntax_loop.simps) simp

lemma loop_valid:
  "attempt \<le> MAX_FIX_ATTEMPTS \<Longrightarrow>
   requestLLMFix E cur le attempt = Some (Resolved (Some s)) \<Longrightarrow> s \<noteq> [] \<Longrightarrow>
   isValid (validateSyntax E s) \<Longrightarrow>
   fixSyntax_loop E cur le best attempt =
     (Some \<lparr>success = True, fixedCode = Some s, error = None, attempts = Some attempt\<rparr>,
      [RequestLLMFix cur le attempt, ValidateSyntax s])"
  by (subst fixSyntax_loop.simps) (simp add: falsy_def)

lemma loop_retry:
  "attempt \<le> MAX_FIX_ATTEMPTS \<Longrightarrow>
   requestLLMFix E cur le attempt = Some (Resolved (Some s)) \<Longrightarrow> s \<noteq> [] \<Longrightarrow>
   \<not> isValid (validateSyntax E s) \<Longrightarrow>
   fixSyntax_loop E cur le best attempt =
     (fst (fixSyntax_loop E s
             (or_else (validationError (validateSyntax E s)) ''Unknown validation error'')
             s (attempt + 1)),
      RequestLLMFix cur le attempt # ValidateSyntax s
        # snd (fixSyntax_loop E s
             (or_else (validationError (validateSyntax E s)) ''Unknown validation error'')
             s (attempt + 1)))"
  by (subst fixSyntax_loop.simps) (simp add: falsy_def split: prod.splits)

lemma loop_cases [consumes 0, case_names exhausted rejected no_fix valid retry]:
  assumes "\<not> attempt \<le> MAX_FIX_ATTEMPTS \<Longrightarrow> Q"
    and "\<And>e. attempt \<le> MAX_FIX_ATTEMPTS \<Longrightarrow>
            requestLLMFix E cur le attempt = Some (Rejected e) \<Longrightarrow> Q"
    and "\<And>fixed. attempt \<le> MAX_FIX_ATTEMPTS \<Longrightarrow>
            requestLLMFix E cur le attempt = Some (Resolved fixed) \<Longrightarrow> falsy fixed \<Longrightarrow> Q"
    and "\<And>s. attempt \<le> MAX_FIX_ATTEMPTS \<Longrightarrow>
            requestLLMFix E cur le attempt = Some (Resolved (Some s)) \<Longrightarrow> s \<noteq> [] \<Longrightarrow>
            isValid (validateSyntax E s) \<Longrightarrow> Q"
    and "\<And>s. attempt \<le> MAX_FIX_ATTEMPTS \<Longrightarrow>
            requestLLMFix E cur le attempt = Some (Resolved (Some s)) \<Longrightarrow> s \<noteq> [] \<Longrightarrow>
            \<not> isValid (validateSyntax E s) \<Longrightarrow> Q"
  shows Q
proof (cases "attempt \<le> MAX_FIX_ATTEMPTS")
  case False
  with assms(1) show Q .
next
  case True
  show Q
  proof (cases "outcome_of (newRequestId E cur le attempt) (inbox E (fixRequest E cur le attempt))")
    case (Rejected e)
    with True assms(2) show Q by (simp add: requestLLMFix_eq)
  next
    case (Resolved fixed)
    show Q
    proof (cases "falsy fixed")
      case True
      with \<open>attempt \<le> MAX_FIX_ATTEMPTS\<close> Resolved assms(3) show Q
        by (simp add: requestLLMFix_eq)
    next
      case False
      then obtain s where s: "fixed = Some s" "s \<noteq> []"
        by (auto simp: falsy_def split: option.splits)
      with True Resolved assms(4)[of s] assms(5)[of s] show Q
        by (cases "isValid (validateSyntax E s)") (simp_all add: requestLLMFix_eq)
    qed
  qed
qed

lemma loop_induct [case_names step]:
  assumes "\<And>cur le best attempt.
     (\<And>s. attempt \<le> MAX_FIX_ATTEMPTS \<Longrightarrow>
           requestLLMFix E cur le attempt = Some (Resolved (Some s)) \<Longrightarrow> s \<noteq> [] \<Longrightarrow>
           \<not> isValid (validateSyntax E s) \<Longrightarrow>
           P s (or_else (validationError (validateSyntax E s)) ''Unknown validation error'') s
             (attempt + 1))
     \<Longrightarrow> P cur le best attempt"
  shows "P cur le best attempt"
proof (induction "nat (MAX_FIX_ATTEMPTS + 1 - attempt)" arbitrary: cur le best attempt)
  case 0
  show ?case by (rule assms) (use 0 in simp)
next
  case (Suc k)
  show ?case
  proof (rule assms)
    fix s
    assume "attempt \<le> MAX_FIX_ATTEMPTS"
    with Suc(2) have "k = nat (MAX_FIX_ATTEMPTS + 1 - (attempt + 1))" by simp
    then show "P s (or_else (validationError (validateSyntax E s)) ''Unknown validation error'') s
             (attempt + 1)" by (rule Suc(1))
  qed
qed

lemma loop_returns:
  "\<exists>r t. fixSyntax_loop E cur le best attempt = (Some r, t)"
proof (induction "nat (MAX_FIX_ATTEMPTS + 1 - attempt)" arbitrary: cur le best attempt)
  case 0
  then have "\<not> attempt \<le> MAX_FIX_ATTEMPTS" by simp
  then show ?case by (simp add: loop_exhausted)
next
  case (Suc k)
  show ?case
  proof (cases rule: loop_cases[where attempt=attempt and E=E and cur=cur and le=le])
    case exhausted
    then show ?thesis by (simp add: loop_exhausted)
  next
    case (rejected e)
    then show ?thesis by (simp add: loop_rejected)
  next
    case (no_fix fixed)
    then show ?thesis by (simp add: loop_no_fix)
  next
    case (valid s)
    then show ?thesis by (simp add: loop_valid)
  next
    case (retry s)
    from Suc(2) have "k = nat (MAX_FIX_ATTEMPTS + 1 - (attempt + 1))" by simp
    from Suc(1)[OF this] obtain r t where
      "fixSyntax_loop E s (or_else (validationError (validateSyntax E s))
          ''Unknown validation error'') s (attempt + 1) = (Some r, t)" by blast
    with retry show ?thesis by (simp add: loop_retry)
  qed
qed

lemma loop_attempts:
  "1 \<le> attempt \<Longrightarrow> fst (fixSyntax_loop E cur le best attempt) = Some r \<Longrightarrow>
   \<exists>n. attempts r = Some n \<and> 1 \<le> n \<and> n \<le> MAX_FIX_ATTEMPTS"
proof (induction cur le best attempt rule: loop_induct[where E=E])
  case (step cur le best attempt)
  show ?case
  proof (cases rule: loop_cases[where attempt=attempt and E=E and cur=cur and le=le])
    case exhausted
    with step.prems show ?thesis by (auto simp: loop_exhausted MAX_FIX_ATTEMPTS_def)
  next
    case (rejected e)
    with step.prems show ?thesis by (auto simp: loop_rejected)
  next
    case (no_fix fixed)
    with step.prems show ?thesis by (auto simp: loop_no_fix)
  next
    case (valid s)
    with step.prems show ?thesis by (auto simp: loop_valid)
  next
    case (retry s)
    with step.prems(2) have "fst (fixSyntax_loop E s
        (or_else (validationError (validateSyntax E s)) ''Unknown validation error'') s
        (attempt + 1)) = Some r"
      by (simp add: loop_retry)
    moreover from step.prems(1) have "1 \<le> attempt + 1" by simp
    ultimately show ?thesis using step.IH[OF retry] by blast
  qed
qed

lemma loop_last_validated:
  "fixSyntax_loop E cur le best attempt = (Some r, t) \<Longrightarrow>
   fixedCode r = (case lastValidated t of None \<Rightarrow> Some best | Some code \<Rightarrow> Some code)"
proof (induction cur le best attempt arbitrary: t rule: loop_induct[where E=E])
  case (step cur le best attempt)
  show ?case
  proof (cases rule: loop_cases[where attempt=attempt and E=E and cur=cur and le=le])
    case exhausted
    with step.prems show ?thesis by (auto simp: loop_exhausted)
  next
    case (rejected e)
    with step.prems show ?thesis by (auto simp: loop_rejected)
  next
    case (no_fix fixed)
    with step.prems show ?thesis by (auto simp: loop_no_fix)
  next
    case (valid s)
    with step.prems show ?thesis by (auto simp: loop_valid)
  next
    case (retry s)
    let ?rest = "fixSyntax_loop E s
        (or_else (validationError (validateSyntax E s)) ''Unknown validation error'') s
        (attempt + 1)"
    from step.prems retry have r: "?rest = (Some r, snd ?rest)"
      and t: "t = RequestLLMFix cur le attempt # ValidateSyntax s # snd ?rest"
      by (simp_all add: loop_retry prod_eq_iff)
    from step.IH[OF retry r] t show ?thesis
      by (simp split: option.splits)
  qed
qed

lemma loop_nonempty:
  "best \<noteq> [] \<Longrightarrow> fst (fixSyntax_loop E cur le best attempt) = Some r \<Longrightarrow>
   fixedCode r \<noteq> Some []"
proof (induction cur le best attempt rule: loop_induct[where E=E])
  case (step cur le best attempt)
  show ?case
  proof (cases rule: loop_cases[where attempt=attempt and E=E and cur=cur and le=le])
    case exhausted
    with step.prems show ?thesis by (auto simp: loop_exhausted)
  next
    case (rejected e)
    with step.prems show ?thesis by (auto simp: loop_rejected)
  next
    case (no_fix fixed)
    with step.prems show ?thesis by (auto simp: loop_no_fix)
  next
    case (valid s)
    with step.prems show ?thesis by (auto simp: loop_valid)
  next
    case (retry s)
    with step.prems(2) have "fst (fixSyntax_loop E s
        (or_else (validationError (validateSyntax E s)) ''Unknown validation error'') s
        (attempt + 1)) = Some r"
      by (simp add: loop_retry)
    with step.IH[OF retry] retry(3) show ?thesis by blast
  qed
qed

lemma apply_nonempty: "code \<noteq> [] \<Longrightarrow> applyDeterministicFixes code \<noteq> []"
  by (cases code) (simp_all add: raw_arrow_def)

lemma autoFix_valid:
  "isValid (validateSyntax E (applyDeterministicFixes code)) \<Longrightarrow>
   autoFixSyntax E code =
     (Some \<lparr>success = True, fixedCode = Some (applyDeterministicFixes code), error = None,
            attempts = Some 0\<rparr>,
      [ValidateSyntax (applyDeterministicFixes code)])"
  by (simp add: autoFixSyntax_def Let_def)

lemma autoFix_invalid:
  "\<not> isValid (validateSyntax E (applyDeterministicFixes code)) \<Longrightarrow>
   autoFixSyntax E code =
     (fst (fixSyntax_loop E (applyDeterministicFixes code)
        (or_else (validationError (validateSyntax E (applyDeterministicFixes code)))
           ''Unknown syntax error'') (applyDeterministicFixes code) 1),
      ValidateSyntax (applyDeterministicFixes code) #
      snd (fixSyntax_loop E (applyDeterministicFixes code)
        (or_else (validationError (validateSyntax E (applyDeterministicFixes code)))
           ''Unknown syntax error'') (applyDeterministicFixes code) 1))"
  by (simp add: autoFixSyntax_def fixSyntax_def Let_def split: prod.splits)

lemma autoFix_returns: "\<exists>r t. autoFixSyntax E code = (Some r, t)"
proof (cases "isValid (validateSyntax E (applyDeterministicFixes code))")
  case True
  then show ?thesis by (simp add: autoFix_valid)
next
  case False
  from loop_returns obtain r t where "fixSyntax_loop E (applyDeterministicFixes code)
        (or_else (validationError (validateSyntax E (applyDeterministicFixes code)))
           ''Unknown syntax error'') (applyDeterministicFixes code) 1 = (Some r, t)" by blast
  with False show ?thesis by (simp add: autoFix_invalid)
qed

text \<open>
  C3. For every input and every environment \<open>autoFixSyntax\<close> returns a result whose
  \<open>attempts\<close> lies between 0 and \<open>MAX_FIX_ATTEMPTS\<close> (2); it is 0 exactly when
  the deterministically fixed input validates, and some input has this outcome.
\<close>

theorem autoFixSyntax_attempts_bounded:
  "(\<exists>r t n. autoFixSyntax E code = (Some r, t) \<and> attempts r = Some n
       \<and> 0 \<le> n \<and> n \<le> MAX_FIX_ATTEMPTS
       \<and> (n = 0 \<longleftrightarrow> isValid (validateSyntax E (applyDeterministicFixes code))))
   \<and> (\<exists>E' code' r' t'. autoFixSyntax E' code' = (Some r', t') \<and> attempts r' = Some 0)"
proof
  show "\<exists>r t n. autoFixSyntax E code = (Some r, t) \<and> attempts r = Some n
       \<and> 0 \<le> n \<and> n \<le> MAX_FIX_ATTEMPTS
       \<and> (n = 0 \<longleftrightarrow> isValid (validateSyntax E (applyDeterministicFixes code)))"
  proof (cases "isValid (validateSyntax E (applyDeterministicFixes code))")
    case True
    then show ?thesis by (simp add: autoFix_valid MAX_FIX_ATTEMPTS_def)
  next
    case False
    from autoFix_returns obtain r t where rt: "autoFixSyntax E code = (Some r, t)" by blast
    with False have "fst (fixSyntax_loop E (applyDeterministicFixes code)
        (or_else (validationError (validateSyntax E (applyDeterministicFixes code)))
           ''Unknown syntax error'') (applyDeterministicFixes code) 1) = Some r"
      by (simp add: autoFix_invalid)
    from loop_attempts[OF _ this] obtain n where
      "attempts r = Some n" "1 \<le> n" "n \<le> MAX_FIX_ATTEMPTS" by auto
    with rt False show ?thesis by auto
  qed
next
  have "autoFixSyntax entity_assistant ''A --&gt; B'' =
     (Some \<lparr>success = True, fixedCode = Some ''A --> B'', error = None, attempts = Some 0\<rparr>,
      [ValidateSyntax ''A --> B''])"
    by code_simp
  then show "\<exists>E' code' r' t'. autoFixSyntax E' code' = (Some r', t') \<and> attempts r' = Some 0"
    by (intro exI[of _ entity_assistant] exI[of _ "''A --&gt; B''"]) simp
qed



text \<open>
  C10. If the first matching response reports success with the empty string as its
  \<open>fixedCode\<close>, the loop returns as for a missing fix: \<open>success = False\<close>, the best
  attempt so far, the error text \<open>LLM failed to provide a fix\<close>, and no validation of
  the empty string.
\<close>

theorem fixSyntax_empty_correction_is_no_fix:
  assumes "attempt \<le> MAX_FIX_ATTEMPTS"
    and "find (matches (newRequestId E cur le attempt)) (inbox E (fixRequest E cur le attempt))
           = Some m"
    and "msg_success m" and "msg_fixedCode m = Some []"
  shows "fixSyntax_loop E cur le best attempt =
     (Some \<lparr>success = False, fixedCode = Some best,
            error = Some ''LLM failed to provide a fix'', attempts = Some attempt\<rparr>,
      [RequestLLMFix cur le attempt])"
proof -
  from assms(2-4) have "requestLLMFix E cur le attempt = Some (Resolved (Some []))"
    by (simp add: requestLLMFix_eq outcome_of_def answer_def)
  from loop_no_fix[OF assms(1) this] show ?thesis by (simp add: falsy_def)
qed

theorem fixSyntax_empty_correction_is_no_fix_witness:
  "(1::int) \<le> MAX_FIX_ATTEMPTS
   \<and> find (matches (newRequestId empty_fix_assistant ''graph'' ''Parse error'' 1))
        (inbox empty_fix_assistant (fixRequest empty_fix_assistant ''graph'' ''Parse error'' 1))
      = Some \<lparr>msg_type = ''mermaidFixResponse'',
               msg_requestId = ''mermaid-fix-1700000000000-k3x9q2a1b'',
               msg_success = True, msg_fixedCode = Some '''', msg_error = None\<rparr>
   \<and> fixSyntax empty_fix_assistant ''graph'' ''Parse error'' =
       (Some \<lparr>success = False, fixedCode = Some ''graph'',
              error = Some ''LLM failed to provide a fix'', attempts = Some 1\<rparr>,
        [RequestLLMFix ''graph'' ''Parse error'' 1])"
proof -
  have a: "(1::int) \<le> MAX_FIX_ATTEMPTS" by (simp add: MAX_FIX_ATTEMPTS_def)
  have b: "find (matches (newRequestId empty_fix_assistant ''graph'' ''Parse error'' 1))
        (inbox empty_fix_assistant (fixRequest empty_fix_assistant ''graph'' ''Parse error'' 1))
      = Some \<lparr>msg_type = ''mermaidFixResponse'',
               msg_requestId = ''mermaid-fix-1700000000000-k3x9q2a1b'',
               msg_success = True, msg_fixedCode = Some '''', msg_error = None\<rparr>"
    by (simp add: empty_fix_assistant_def matches_def fixRequest_def newRequestId_def)
  from fixSyntax_empty_correction_is_no_fix[OF a b, of "''graph''"] a b show ?thesis
    by (simp add: fixSyntax_def)
qed

text \<open>
  C5, as stated, fails for the empty input: with a parser that rejects the empty text
  and an assistant that does not answer, \<open>autoFixSyntax\<close> returns
  \<open>success = False\<close> with the empty string as \<open>fixedCode\<close>.
\<close>

theorem autoFixSyntax_empty_best_effort:
  "autoFixSyntax silent_assistant '''' =
     (Some \<lparr>success = False, fixedCode = Some '''',
            error = Some ''LLM fix request timed out'', attempts = Some 1\<rparr>,
      [ValidateSyntax '''', RequestLLMFix '''' ''No diagram type detected'' 1])"
  by code_simp

text \<open>
  C5, amended. \<open>autoFixSyntax\<close> always returns; when \<open>success\<close> is false,
  \<open>fixedCode\<close> is the code of the last \<open>validateSyntax\<close> call of the fix sequence,
  and it is not the empty string if the input is not empty.
\<close>

theorem autoFixSyntax_best_effort:
  "\<exists>r t. autoFixSyntax E code = (Some r, t)
     \<and> (\<not> success r \<longrightarrow>
          fixedCode r = lastValidated t \<and> lastValidated t \<noteq> None
          \<and> (code \<noteq> [] \<longrightarrow> fixedCode r \<noteq> Some []))"
proof (cases "isValid (validateSyntax E (applyDeterministicFixes code))")
  case True
  then show ?thesis by (simp add: autoFix_valid)
next
  case False
  let ?d = "applyDeterministicFixes code"
  let ?loop = "fixSyntax_loop E ?d
        (or_else (validationError (validateSyntax E ?d)) ''Unknown syntax error'') ?d 1"
  from loop_returns obtain r t where rt: "?loop = (Some r, t)" by blast
  with False have a: "autoFixSyntax E code = (Some r, ValidateSyntax ?d # t)"
    by (simp add: autoFix_invalid)
  from loop_last_validated[OF rt]
  have b: "fixedCode r = lastValidated (ValidateSyntax ?d # t)"
    by (simp split: option.splits)
  have c: "lastValidated (ValidateSyntax ?d # t) \<noteq> None"
    by (simp split: option.splits)
  have d: "code \<noteq> [] \<longrightarrow> fixedCode r \<noteq> Some []"
  proof
    assume "code \<noteq> []"
    then have "?d \<noteq> []" by (rule apply_nonempty)
    moreover from rt have "fst ?loop = Some r" by simp
    ultimately show "fixedCode r \<noteq> Some []" by (rule loop_nonempty)
  qed
  from a b c d show ?thesis by blast
qed

theorem autoFixSyntax_best_effort_witness:
  "autoFixSyntax entity_assistant ''A -> B'' =
     (Some \<lparr>success = False, fixedCode = Some ''A --&gt; B'',
            error = Some ''Failed to fix syntax after 2 attempts. Last error: Parse error'',
            attempts = Some 2\<rparr>,
      [ValidateSyntax ''A -> B'', RequestLLMFix ''A -> B'' ''Parse error'' 1,
       ValidateSyntax ''A --&gt; B'', RequestLLMFix ''A --&gt; B'' ''Parse error'' 2,
       ValidateSyntax ''A --&gt; B''])
   \<and> ''A -> B'' \<noteq> []
   \<and> lastValidated [ValidateSyntax ''A -> B'', RequestLLMFix ''A -> B'' ''Parse error'' 1,
       ValidateSyntax ''A --&gt; B'', RequestLLMFix ''A --&gt; B'' ''Parse error'' 2,
       ValidateSyntax ''A --&gt; B''] = Some ''A --&gt; B''"
proof -
  have e: "autoFixSyntax entity_assistant ''A -> B'' =
     (Some \<lparr>success = False, fixedCode = Some ''A --&gt; B'',
            error = Some ''Failed to fix syntax after 2 attempts. Last error: Parse error'',
            attempts = Some 2\<rparr>,
      [ValidateSyntax ''A -> B'', RequestLLMFix ''A -> B'' ''Parse error'' 1,
       ValidateSyntax ''A --&gt; B'', RequestLLMFix ''A --&gt; B'' ''Parse error'' 2,
       ValidateSyntax ''A --&gt; B''])"
    by code_simp
  from autoFixSyntax_best_effort[of entity_assistant "''A -> B''"] obtain r t where
    rt: "autoFixSyntax entity_assistant ''A -> B'' = (Some r, t)" and
    imp: "\<not> success r \<longrightarrow>
          fixedCode r = lastValidated t \<and> lastValidated t \<noteq> None
          \<and> (''A -> B'' \<noteq> [] \<longrightarrow> fixedCode r \<noteq> Some [])"
    by blast
  from rt e have r: "r = \<lparr>success = False, fixedCode = Some ''A --&gt; B'',
            error = Some ''Failed to fix syntax after 2 attempts. Last error: Parse error'',
            attempts = Some 2\<rparr>"
    and t: "t = [ValidateSyntax ''A -> B'', RequestLLMFix ''A -> B'' ''Parse error'' 1,
       ValidateSyntax ''A --&gt; B'', RequestLLMFix ''A --&gt; B'' ''Parse error'' 2,
       ValidateSyntax ''A --&gt; B'']"
    by simp_all
  from r have "\<not> success r" by simp
  with imp have "fixedCode r = lastValidated t" by blast
  with r have "lastValidated t = Some ''A --&gt; B''" by simp
  with e t show ?thesis by simp
qed

text \<open>
  C1. The code at the failing input: the parser accepts only \<open>A --> B\<close>, the assistant
  answers \<open>A --&gt; B\<close> to every request, and the input is \<open>A -> B\<close>.
  \<open>autoFixSyntax\<close> reports \<open>A --&gt; B\<close> as \<open>fixedCode\<close>, which the
  deterministic pass would change to \<open>A --> B\<close>.
\<close>

theorem autoFixSyntax_reports_unnormalized_correction:
  "fst (autoFixSyntax entity_assistant ''A -> B'') =
     Some \<lparr>success = False, fixedCode = Some ''A --&gt; B'',
           error = Some ''Failed to fix syntax after 2 attempts. Last error: Parse error'',
           attempts = Some 2\<rparr>
   \<and> applyDeterministicFixes ''A --&gt; B'' = ''A --> B''
   \<and> ''A --> B'' \<noteq> ''A --&gt; B''"
  by code_simp

text \<open>
  C2. The code at the failing input: in the same environment \<open>fixSyntax\<close> validates
  the correction \<open>A --&gt; B\<close> as the assistant returned it, in both iterations, and
  rejects it, while its form after the deterministic pass would validate.
\<close>

theorem fixSyntax_validates_raw_correction:
  "snd (fixSyntax entity_assistant ''A -> B'' ''Parse error'') =
     [RequestLLMFix ''A -> B'' ''Parse error'' 1, ValidateSyntax ''A --&gt; B'',
      RequestLLMFix ''A --&gt; B'' ''Parse error'' 2, ValidateSyntax ''A --&gt; B'']
   \<and> isValid (validateSyntax entity_assistant (applyDeterministicFixes ''A --&gt; B''))
   \<and> \<not> isValid (validateSyntax entity_assistant ''A --&gt; B'')"
  by code_simp

section \<open>Properties of the render pipeline\<close>

lemma requestCount_simps [simp]:
  "requestCount [] = 0"
  "requestCount (RequestLLMFix c e a # t) = Suc (requestCount t)"
  "requestCount (ValidateSyntax c # t) = requestCount t"
  by (simp_all add: requestCount_def)

lemma loop_requestCount:
  "requestCount (snd (fixSyntax_loop E cur le best attempt))
     \<le> nat (MAX_FIX_ATTEMPTS + 1 - attempt)"
proof (induction cur le best attempt rule: loop_induct[where E=E])
  case (step cur le best attempt)
  show ?case
  proof (cases rule: loop_cases[where attempt=attempt and E=E and cur=cur and le=le])
    case exhausted
    then show ?thesis by (simp add: loop_exhausted)
  next
    case (rejected e)
    then show ?thesis by (simp add: loop_rejected)
  next
    case (no_fix fixed)
    then show ?thesis by (simp add: loop_no_fix)
  next
    case (valid s)
    then show ?thesis by (simp add: loop_valid)
  next
    case (retry s)
    from step.IH[OF retry] retry(1) show ?thesis
      by (simp add: loop_retry[OF retry])
  qed
qed

lemma autoFix_requestCount:
  "requestCount (snd (autoFixSyntax E code)) \<le> nat MAX_FIX_ATTEMPTS"
proof (cases "isValid (validateSyntax E (applyDeterministicFixes code))")
  case True
  then show ?thesis by (simp add: autoFix_valid)
next
  case False
  from loop_requestCount[of E "applyDeterministicFixes code" _ "applyDeterministicFixes code" 1]
  show ?thesis using False by (simp add: autoFix_invalid)
qed

lemma autoFixReturned_fields:
  "props_code (autoFixReturned c m r s) = props_code s"
  "autoFixCalls (autoFixReturned c m r s) = autoFixCalls s"
  "autoFixRequests (autoFixReturned c m r s) = autoFixRequests s"
  "hasAutoFixed s \<Longrightarrow> hasAutoFixed (autoFixReturned c m r s)"
  "renderScheduled s \<longrightarrow> hasAutoFixed s \<Longrightarrow>
     renderScheduled (autoFixReturned c m r s) \<longrightarrow> hasAutoFixed (autoFixReturned c m r s)"
  by (simp_all add: autoFixReturned_def)

lemma manualFixReturned_fields:
  "props_code (manualFixReturned r s) = props_code s"
  "autoFixCalls (manualFixReturned r s) = autoFixCalls s"
  "autoFixRequests (manualFixReturned r s) = autoFixRequests s"
  "hasAutoFixed s \<Longrightarrow> hasAutoFixed (manualFixReturned r s)"
  "renderScheduled s \<longrightarrow> hasAutoFixed s \<Longrightarrow>
     renderScheduled (manualFixReturned r s) \<longrightarrow> hasAutoFixed (manualFixReturned r s)"
  by (simp_all add: manualFixReturned_def)

lemma handleManualFix_fields:
  "props_code (handleManualFix E s) = props_code s"
  "autoFixCalls (handleManualFix E s) = autoFixCalls s"
  "autoFixRequests (handleManualFix E s) = autoFixRequests s"
  "hasAutoFixed (handleManualFix E s) = hasAutoFixed s"
  "renderScheduled (handleManualFix E s) = renderScheduled s"
  by (simp_all add: handleManualFix_def)

lemma renderMermaid_fields:
  "props_code (renderMermaid E rnd s) = props_code s"
  "hasAutoFixed (renderMermaid E rnd s) = hasAutoFixed s"
  "renderScheduled (renderMermaid E rnd s) = renderScheduled s"
  by (simp_all add: renderMermaid_def Let_def split: sum.splits prod.splits)

lemma renderMermaid_guard_closed:
  "hasAutoFixed s \<or> currentCode s \<noteq> props_code s \<or> isFixing s \<Longrightarrow>
   autoFixCalls (renderMermaid E rnd s) = autoFixCalls s
   \<and> autoFixRequests (renderMermaid E rnd s) = autoFixRequests s"
  by (auto simp: renderMermaid_def Let_def split: sum.splits prod.splits)

lemma renderMermaid_calls:
  "(autoFixCalls (renderMermaid E rnd s) = autoFixCalls s
      \<and> autoFixRequests (renderMermaid E rnd s) = autoFixRequests s)
   \<or> (autoFixCalls (renderMermaid E rnd s) = autoFixCalls s + 1
      \<and> autoFixRequests (renderMermaid E rnd s) \<le> autoFixRequests s + nat MAX_FIX_ATTEMPTS)"
proof -
  have "requestCount (snd (autoFixSyntax E (currentCode s))) \<le> nat MAX_FIX_ATTEMPTS"
    by (rule autoFix_requestCount)
  then show ?thesis
    by (auto simp: renderMermaid_def Let_def split: sum.splits prod.splits)
qed

lemma step_after_cycle:
  assumes "renderScheduled s \<longrightarrow> hasAutoFixed s" and "sameSource (props_code s) ev"
  shows "autoFixCalls (step s ev) = autoFixCalls s
     \<and> autoFixRequests (step s ev) = autoFixRequests s
     \<and> (renderScheduled (step s ev) \<longrightarrow> hasAutoFixed (step s ev))"
proof (cases ev)
  case (CodeChanges c)
  with assms show ?thesis by (simp add: sameSource_def codeEffect_def)
next
  case (RenderCycle E rnd)
  show ?thesis
  proof (cases "renderScheduled s")
    case True
    with assms(1) have "hasAutoFixed (s\<lparr>renderScheduled := False\<rparr>)" by simp
    then have "autoFixCalls (renderMermaid E rnd (s\<lparr>renderScheduled := False\<rparr>)) = autoFixCalls s
      \<and> autoFixRequests (renderMermaid E rnd (s\<lparr>renderScheduled := False\<rparr>)) = autoFixRequests s"
      using renderMermaid_guard_closed[of "s\<lparr>renderScheduled := False\<rparr>" E rnd] by simp
    with True RenderCycle show ?thesis by (simp add: renderMermaid_fields)
  next
    case False
    with RenderCycle assms show ?thesis by simp
  qed
next
  case (AutoFixReturns i)
  with assms(1) show ?thesis
    by (auto simp: autoFixReturned_fields split: prod.splits option.splits
        intro!: autoFixReturned_fields(5)[rule_format])
next
  case (ManualFixClicked E)
  with assms(1) show ?thesis by (simp add: handleManualFix_fields)
next
  case (ManualFixReturns i)
  with assms(1) show ?thesis
    by (auto simp: manualFixReturned_fields split: option.splits
        intro!: manualFixReturned_fields(5)[rule_format])
qed

lemma step_keeps:
  assumes "sameSource (props_code s) ev"
  shows "props_code (step s ev) = props_code s \<and> (hasAutoFixed s \<longrightarrow> hasAutoFixed (step s ev))"
proof (cases ev)
  case (CodeChanges c)
  with assms show ?thesis by (simp add: sameSource_def codeEffect_def)
next
  case (RenderCycle E rnd)
  then show ?thesis by (simp add: renderMermaid_fields)
next
  case (AutoFixReturns i)
  then show ?thesis by (auto simp: autoFixReturned_fields split: prod.splits option.splits)
next
  case (ManualFixClicked E)
  then show ?thesis by (simp add: handleManualFix_fields)
next
  case (ManualFixReturns i)
  then show ?thesis by (auto simp: manualFixReturned_fields split: option.splits)
qed

lemma step_first_call:
  assumes "sameSource (props_code s) ev"
  shows "(autoFixCalls (step s ev) = autoFixCalls s
            \<and> autoFixRequests (step s ev) = autoFixRequests s)
     \<or> (autoFixCalls (step s ev) = autoFixCalls s + 1
            \<and> autoFixRequests (step s ev) \<le> autoFixRequests s + nat MAX_FIX_ATTEMPTS
            \<and> \<not> renderScheduled (step s ev))"
proof (cases ev)
  case (CodeChanges c)
  with assms show ?thesis by (simp add: sameSource_def codeEffect_def)
next
  case (RenderCycle E rnd)
  show ?thesis
  proof (cases "renderScheduled s")
    case True
    with RenderCycle renderMermaid_calls[of E rnd "s\<lparr>renderScheduled := False\<rparr>"]
    show ?thesis by (simp add: renderMermaid_fields)
  next
    case False
    with RenderCycle show ?thesis by simp
  qed
next
  case (AutoFixReturns i)
  then show ?thesis by (auto simp: autoFixReturned_fields split: prod.splits option.splits)
next
  case (ManualFixClicked E)
  then show ?thesis by (simp add: handleManualFix_fields)
next
  case (ManualFixReturns i)
  then show ?thesis by (auto simp: manualFixReturned_fields split: option.splits)
qed

lemma run_Cons: "run s (ev # evs) = run (step s ev) evs"
  by (simp add: run_def)

lemma run_keeps:
  "\<forall>ev \<in> set evs. sameSource (props_code s) ev \<Longrightarrow>
   props_code (run s evs) = props_code s \<and> (hasAutoFixed s \<longrightarrow> hasAutoFixed (run s evs))"
proof (induction evs arbitrary: s)
  case Nil
  then show ?case by (simp add: run_def)
next
  case (Cons ev evs)
  from Cons.prems have a: "sameSource (props_code s) ev" by simp
  from step_keeps[OF a] Cons.prems Cons.IH[of "step s ev"] show ?case
    by (simp add: run_Cons)
qed

lemma run_after_cycle:
  "renderScheduled s \<longrightarrow> hasAutoFixed s \<Longrightarrow>
   \<forall>ev \<in> set evs. sameSource (props_code s) ev \<Longrightarrow>
   autoFixCalls (run s evs) = autoFixCalls s \<and> autoFixRequests (run s evs) = autoFixRequests s"
proof (induction evs arbitrary: s)
  case Nil
  then show ?case by (simp add: run_def)
next
  case (Cons ev evs)
  from Cons.prems have a: "sameSource (props_code s) ev" by simp
  from step_after_cycle[OF Cons.prems(1) a] step_keeps[OF a] Cons.prems(2)
    Cons.IH[of "step s ev"] show ?case
    by (simp add: run_Cons)
qed

lemma run_at_most_once:
  "\<forall>ev \<in> set evs. sameSource (props_code s) ev \<Longrightarrow>
   autoFixCalls (run s evs) \<le> autoFixCalls s + 1
   \<and> autoFixRequests (run s evs) \<le> autoFixRequests s + nat MAX_FIX_ATTEMPTS"
proof (induction evs arbitrary: s)
  case Nil
  then show ?case by (simp add: run_def)
next
  case (Cons ev evs)
  from Cons.prems have a: "sameSource (props_code s) ev" by simp
  from step_keeps[OF a] Cons.prems
  have rest: "\<forall>e \<in> set evs. sameSource (props_code (step s ev)) e" by simp
  from step_first_call[OF a] show ?case
  proof
    assume "autoFixCalls (step s ev) = autoFixCalls s
            \<and> autoFixRequests (step s ev) = autoFixRequests s"
    with Cons.IH[OF rest] show ?thesis by (simp add: run_Cons)
  next
    assume b: "autoFixCalls (step s ev) = autoFixCalls s + 1
            \<and> autoFixRequests (step s ev) \<le> autoFixRequests s + nat MAX_FIX_ATTEMPTS
            \<and> \<not> renderScheduled (step s ev)"
    then have "renderScheduled (step s ev) \<longrightarrow> hasAutoFixed (step s ev)" by simp
    from run_after_cycle[OF this rest] b show ?thesis by (simp add: run_Cons)
  qed
qed

text \<open>
  C8. While the prop \<open>code\<close> keeps its value, whatever render cycles, returns of fix
  calls and manual fix requests occur, \<open>renderMermaid\<close> calls \<open>autoFixSyntax\<close> at
  most once more, the assistant requests made on behalf of \<open>renderMermaid\<close> grow by at
  most \<open>MAX_FIX_ATTEMPTS\<close>, those of one call, and \<open>hasAutoFixed\<close>, once set, stays
  set. Calls made by \<open>handleManualFix\<close> are not counted. The bound rests on the
  scheduling: after a failed automatic fix \<open>hasAutoFixed\<close> is still false, and no
  further cycle runs because \<open>currentCode\<close> has not changed.
\<close>

theorem auto_fix_at_most_once_per_source:
  assumes "\<forall>ev \<in> set evs. sameSource (props_code s) ev"
  shows "autoFixCalls (run s evs) \<le> autoFixCalls s + 1
     \<and> autoFixRequests (run s evs) \<le> autoFixRequests s + nat MAX_FIX_ATTEMPTS
     \<and> props_code (run s evs) = props_code s
     \<and> (hasAutoFixed s \<longrightarrow> hasAutoFixed (run s evs))"
  using run_at_most_once[OF assms] run_keeps[OF assms] by blast

theorem auto_fix_at_most_once_per_source_witness:
  "sameSource (props_code (mount ''A -> B'')) (RenderCycle silent_assistant (\<lambda>c. Inr ''<svg/>''))
   \<and> sameSource (props_code (mount ''A -> B'')) (AutoFixReturns 0)
   \<and> sameSource (props_code (mount ''A -> B'')) (CodeChanges ''A -> B'')
   \<and> autoFixCalls (mount ''A -> B'') = 0
   \<and> autoFixCalls (run (mount ''A -> B'')
         [RenderCycle silent_assistant (\<lambda>c. Inr ''<svg/>''), AutoFixReturns 0,
          RenderCycle silent_assistant (\<lambda>c. Inr ''<svg/>''), CodeChanges ''A -> B'',
          RenderCycle silent_assistant (\<lambda>c. Inr ''<svg/>'')]) = 1
   \<and> autoFixCalls (run (mount ''A -> B'')
         [RenderCycle silent_assistant (\<lambda>c. Inr ''<svg/>''), AutoFixReturns 0,
          RenderCycle silent_assistant (\<lambda>c. Inr ''<svg/>''), CodeChanges ''A -> B'',
          RenderCycle silent_assistant (\<lambda>c. Inr ''<svg/>'')])
       \<le> autoFixCalls (mount ''A -> B'') + 1"
proof -
  let ?cycle = "RenderCycle silent_assistant (\<lambda>c. Inr ''<svg/>'')"
  let ?evs = "[?cycle, AutoFixReturns 0, ?cycle, CodeChanges ''A -> B'', ?cycle]"
  have h: "sameSource (props_code (mount ''A -> B'')) ?cycle"
    "sameSource (props_code (mount ''A -> B'')) (AutoFixReturns 0)"
    "sameSource (props_code (mount ''A -> B'')) (CodeChanges ''A -> B'')"
    by (simp_all add: sameSource_def mount_def)
  then have "\<forall>ev \<in> set ?evs. sameSource (props_code (mount ''A -> B'')) ev" by simp
  from auto_fix_at_most_once_per_source[OF this]
  have b: "autoFixCalls (run (mount ''A -> B'') ?evs) \<le> autoFixCalls (mount ''A -> B'') + 1"
    by blast
  have c: "autoFixCalls (run (mount ''A -> B'') ?evs) = 1"
    by code_simp
  have d: "autoFixCalls (mount ''A -> B'') = 0" by (simp add: mount_def)
  from h b c d show ?thesis by blast
qed

end
